theory Spec2Isabelle
  imports Main "HOL-Library.Char_ord" "HOL-Library.List_Lexorder"
begin

section \<open>Python values used by \<open>gtp_connection.py\<close>\<close>

text \<open>
  Exceptions are values. \<open>str(e)\<close> of the source is \<open>str_exn\<close>: the
  message of a \<open>ValueError\<close> (empty for a bare \<open>raise ValueError\<close>), the
  \<open>repr\<close> of the key of a \<open>KeyError\<close>.
\<close>

datatype exn =
    ValueError string
  | KeyError string
  | IndexError string
  | TypeError string
  | ZeroDivisionError
  | AssertionError
  | SystemExit

definition ord :: "char \<Rightarrow> int" where
  "ord c = int (of_char c)"

definition is_digit :: "char \<Rightarrow> bool" where
  "is_digit c = (48 \<le> (of_char c :: nat) \<and> (of_char c :: nat) \<le> 57)"

definition is_space :: "char \<Rightarrow> bool" where
  "is_space c = ((of_char c :: nat) \<in> {9, 10, 11, 12, 13, 28, 29, 30, 31, 32})"

definition lower_char :: "char \<Rightarrow> char" where
  "lower_char c = (if 65 \<le> (of_char c :: nat) \<and> (of_char c :: nat) \<le> 90
                   then char_of ((of_char c :: nat) + 32) else c)"

definition lower :: "string \<Rightarrow> string" where
  "lower s = map lower_char s"

definition digit_char :: "nat \<Rightarrow> char" where
  "digit_char d = char_of (48 + d)"

definition digit_val :: "char \<Rightarrow> nat" where
  "digit_val c = (of_char c :: nat) - 48"

text \<open>\<open>str(n)\<close> for a Python int.\<close>

fun str_nat :: "nat \<Rightarrow> string" where
  "str_nat n = (if n < 10 then [digit_char n] else str_nat (n div 10) @ [digit_char (n mod 10)])"

declare str_nat.simps [simp del]

definition str_int :: "int \<Rightarrow> string" where
  "str_int i = (if i < 0 then CHR ''-'' # str_nat (nat (- i)) else str_nat (nat i))"

text \<open>
  \<open>repr(s)\<close> of a Python string: single quotes unless the string holds a
  single quote and no double quote; backslash, the chosen quote, tab, newline and
  carriage return escaped; any other non-printable byte as \<open>\xhh\<close>.
\<close>

definition hex_digit :: "nat \<Rightarrow> char" where
  "hex_digit d = (if d < 10 then char_of (48 + d) else char_of (87 + d))"

definition repr_char :: "char \<Rightarrow> char \<Rightarrow> string" where
  "repr_char q c =
    (let n = (of_char c :: nat) in
     if c = q \<or> n = 92 then [char_of (92::nat), c]
     else if n = 9 then [char_of (92::nat), CHR ''t'']
     else if n = 10 then [char_of (92::nat), CHR ''n'']
     else if n = 13 then [char_of (92::nat), CHR ''r'']
     else if n < 32 \<or> 127 \<le> n then [char_of (92::nat), CHR ''x'', hex_digit (n div 16), hex_digit (n mod 16)]
     else [c])"

definition repr :: "string \<Rightarrow> string" where
  "repr s =
    (let q = (if char_of (39::nat) \<in> set s \<and> char_of (34::nat) \<notin> set s
              then char_of (34::nat) else char_of (39::nat))
     in q # concat (map (repr_char q) s) @ [q])"

definition str_exn :: "exn \<Rightarrow> string" where
  "str_exn e = (case e of ValueError m \<Rightarrow> m | KeyError k \<Rightarrow> repr k
                | IndexError m \<Rightarrow> m | TypeError m \<Rightarrow> m
                | ZeroDivisionError \<Rightarrow> ''integer division or modulo by zero''
                | AssertionError \<Rightarrow> [] | SystemExit \<Rightarrow> [])"

text \<open>
  \<open>int(s)\<close>: surrounding whitespace stripped, an optional sign, then decimal
  digits in which single underscores may separate digits; anything else raises
  \<open>ValueError\<close> with the interpreter's message.
\<close>

definition strip :: "string \<Rightarrow> string" where
  "strip s = rev (dropWhile is_space (rev (dropWhile is_space s)))"

fun no_double_underscore :: "string \<Rightarrow> bool" where
  "no_double_underscore (a # b # cs) =
     (\<not> (a = CHR ''_'' \<and> b = CHR ''_'') \<and> no_double_underscore (b # cs))"
| "no_double_underscore _ = True"

definition valid_digits :: "string \<Rightarrow> bool" where
  "valid_digits s = (s \<noteq> [] \<and> is_digit (hd s) \<and> is_digit (last s)
        \<and> list_all (\<lambda>c. is_digit c \<or> c = CHR ''_'') s \<and> no_double_underscore s)"

definition digits_value :: "string \<Rightarrow> nat" where
  "digits_value s = foldl (\<lambda>a c. 10 * a + digit_val c) 0 (filter is_digit s)"

definition py_int :: "string \<Rightarrow> exn + int" where
  "py_int s =
    (let t = strip s;
         neg = (t \<noteq> [] \<and> hd t = CHR ''-'');
         body = (if t \<noteq> [] \<and> (hd t = CHR ''-'' \<or> hd t = CHR ''+'') then tl t else t)
     in if valid_digits body
        then Inr (if neg then - int (digits_value body) else int (digits_value body))
        else Inl (ValueError (''invalid literal for int() with base 10: '' @ repr s)))"

section \<open>Coordinate codec\<close>

text \<open>
  A move is \<open>PASS\<close> or a \<open>(row, col)\<close> pair; \<open>PASS\<close> of \<open>board_util\<close> is
  the spec's distinguished value outside the coordinates, so no point and no pair
  equals it. \<open>MAXSIZE\<close> is imported by the source from \<open>board_util\<close>; the
  codec takes it as a parameter.
\<close>

datatype move = PASS | Coord int int

definition column_letters :: string where
  "column_letters = ''ABCDEFGHJKLMNOPQRSTUVWXYZ''"

text \<open>
  Indexing a sequence of \<open>len\<close> items by a Python int: \<open>-len .. -1\<close> address
  the items from the end, anything outside \<open>-len .. len - 1\<close> is out of range.
\<close>

definition wrap_index :: "nat \<Rightarrow> int \<Rightarrow> nat option" where
  "wrap_index len i =
    (if 0 \<le> i \<and> i < int len then Some (nat i)
     else if i < 0 \<and> - i \<le> int len then Some (nat (int len + i))
     else None)"

definition py_index :: "'a list \<Rightarrow> int \<Rightarrow> exn + 'a" where
  "py_index xs i =
    (case wrap_index (length xs) i of
       Some j \<Rightarrow> Inr (xs ! j)
     | None \<Rightarrow> Inl (IndexError ''string index out of range''))"

definition format_point :: "int \<Rightarrow> move \<Rightarrow> exn + string" where
  "format_point maxsize m =
    (if \<not> maxsize \<le> 25 then Inl AssertionError
     else case m of
       PASS \<Rightarrow> Inr ''PASS''
     | Coord row col \<Rightarrow>
         if \<not> (0 \<le> row \<and> row < maxsize) \<or> \<not> (0 \<le> col \<and> col < maxsize)
         then Inl (ValueError [])
         else (case py_index column_letters (col - 1) of
                 Inl e \<Rightarrow> Inl e
               | Inr c \<Rightarrow> Inr (c # str_int row)))"

definition invalid_point :: "string \<Rightarrow> exn" where
  "invalid_point s = ValueError (''invalid point: '' @ [char_of (39::nat)] @ s @ [char_of (39::nat)])"

definition off_board :: "string \<Rightarrow> exn" where
  "off_board s = ValueError (''point off board: '' @ [char_of (39::nat)] @ s @ [char_of (39::nat)])"

definition move_to_coord :: "int \<Rightarrow> string \<Rightarrow> int \<Rightarrow> exn + move" where
  "move_to_coord maxsize point_str board_size =
    (if \<not> (2 \<le> board_size \<and> board_size \<le> maxsize)
     then Inl (ValueError ''board_size out of range'')
     else let s = lower point_str in
     if s = ''pass'' then Inr PASS
     else case s of
       [] \<Rightarrow> Inl (invalid_point s)
     | col_c # rest \<Rightarrow>
         if \<not> (ord CHR ''a'' \<le> ord col_c \<and> ord col_c \<le> ord CHR ''z'') \<or> col_c = CHR ''i''
         then Inl (invalid_point s)
         else let col0 = ord col_c - ord CHR ''a'';
                  col = (if ord col_c < ord CHR ''i'' then col0 + 1 else col0)
              in case py_int rest of
                   Inl e \<Rightarrow> Inl (invalid_point s)
                 | Inr row \<Rightarrow>
                     if row < 1 then Inl (invalid_point s)
                     else if \<not> (col \<le> board_size \<and> row \<le> board_size)
                     then Inl (off_board s)
                     else Inr (Coord row col))"

section \<open>Board\<close>

text \<open>
  The colour codes of \<open>board_util\<close>, as the literals of \<open>check_result\<close> and its
  comment on \<open>color_list\<close> give them.
\<close>

definition EMPTY :: int where "EMPTY = 0"
definition BLACK :: int where "BLACK = 1"
definition WHITE :: int where "WHITE = 2"
definition BORDER :: int where "BORDER = 3"

record go_board =
  bsize :: int
  board :: "int list"
  current_player :: int

text \<open>
  Modelled from the spec: \<open>board.get_color\<close> is not in the source file; it is
  the spec's \<open>colorAt(index)\<close>, the cell of the board array at the index.
\<close>

definition get_color :: "go_board \<Rightarrow> nat \<Rightarrow> exn + int" where
  "get_color b i = (if i < length (board b) then Inr (board b ! i)
                    else Inl (IndexError ''index out of bounds''))"

text \<open>
  Modelled from the spec: \<open>board.get_empty_points\<close> is not in the source file;
  the spec's \<open>emptyPoints()\<close> is the sequence of indices whose cell is EMPTY.
\<close>

definition get_empty_points :: "go_board \<Rightarrow> nat list" where
  "get_empty_points b = filter (\<lambda>i. board b ! i = EMPTY) [0 ..< length (board b)]"

text \<open>
  Modelled from the spec: \<open>board.connected_component\<close> and
  \<open>board.connected_component_dia\<close> are not in the source file. Spec 4.3, step 1b:
  a boolean sequence over the full index range, true at \<open>i\<close> iff the cell at \<open>i\<close>
  holds the colour being checked; step 1e: the diagonal checks run over the same
  mask. The source passes the first cell of the colour; the colour itself is an
  argument here, which also fixes the msk when no cell holds the colour.
\<close>

definition connected_component :: "go_board \<Rightarrow> int \<Rightarrow> nat \<Rightarrow> bool list" where
  "connected_component b color point = map (\<lambda>c. c = color) (board b)"

definition connected_component_dia :: "go_board \<Rightarrow> int \<Rightarrow> nat \<Rightarrow> bool list" where
  "connected_component_dia b color point = map (\<lambda>c. c = color) (board b)"

section \<open>Win detector: the loops of \<open>check_result\<close>\<close>

text \<open>
  \<open>color_list\<close>: the colours of the cells \<open>0 .. (size+1)*(size+1)-2\<close>.
\<close>

fun collect_colors :: "go_board \<Rightarrow> nat list \<Rightarrow> exn + int list" where
  "collect_colors b [] = Inr []"
| "collect_colors b (i # is) =
     (case get_color b i of
        Inl e \<Rightarrow> Inl e
      | Inr c \<Rightarrow> (case collect_colors b is of Inl e \<Rightarrow> Inl e | Inr cs \<Rightarrow> Inr (c # cs)))"

definition color_list :: "go_board \<Rightarrow> exn + int list" where
  "color_list b = collect_colors b [0 ..< nat ((bsize b + 1) * (bsize b + 1) - 1)]"

text \<open>The scan for the first cell of a colour: its index, or the length of the list.\<close>

fun first_stone_point :: "int \<Rightarrow> int list \<Rightarrow> nat" where
  "first_stone_point color [] = 0"
| "first_stone_point color (c # cs) = (if c = color then 0 else Suc (first_stone_point color cs))"

text \<open>
  The row loop: the counter grows on a true cell; on a false cell the check is
  set when the counter is at least 5, and the counter is cleared otherwise.
\<close>

fun row_scan :: "bool list \<Rightarrow> nat \<Rightarrow> bool" where
  "row_scan [] m = False"
| "row_scan (x # xs) m = (if x then row_scan xs (m + 1) else if 5 \<le> m then True else row_scan xs 0)"

text \<open>
  The inner loop \<open>for j in range(checkpoint, stop, step)\<close> with a positive step:
  the number of true cells met, or the IndexError of reading the msk past its end.
\<close>

function stride_scan :: "bool list \<Rightarrow> nat \<Rightarrow> nat \<Rightarrow> nat \<Rightarrow> exn + nat" where
  "stride_scan msk stop step j =
    (if step = 0 \<or> stop \<le> j then Inr 0
     else if length msk \<le> j then Inl (IndexError ''index out of bounds'')
     else (case stride_scan msk stop step (j + step) of
             Inl e \<Rightarrow> Inl e
           | Inr k \<Rightarrow> Inr ((if msk ! j then 1 else 0) + k)))"
  by pat_completeness auto
termination
  by (relation "measure (\<lambda>(msk, stop, step, j). stop - j)") auto

declare stride_scan.simps [simp del]

text \<open>
  \<open>range\<close> with a Python int step: zero raises, a negative step from below the
  stop is empty, and the loop above runs for a positive one only.
\<close>

definition range_scan :: "bool list \<Rightarrow> nat \<Rightarrow> int \<Rightarrow> nat \<Rightarrow> exn + nat" where
  "range_scan msk stop step j =
    (if step = 0 then Inl (ValueError ''range() arg 3 must not be zero'')
     else if step < 0 then Inr 0
     else stride_scan msk stop (nat step) j)"

text \<open>
  The outer loop of the column and diagonal checks, from index \<open>i\<close> with counter
  \<open>m\<close>: on a true cell the inner loop adds to the counter; on a false cell the
  check is set (and the loop left) when the counter is at least 5, and the counter
  is cleared otherwise.
\<close>

function stride_check :: "bool list \<Rightarrow> nat \<Rightarrow> int \<Rightarrow> nat \<Rightarrow> nat \<Rightarrow> exn + bool" where
  "stride_check msk stop step i m =
    (if length msk \<le> i then Inr False
     else if msk ! i then
       (case range_scan msk stop step i of
          Inl e \<Rightarrow> Inl e
        | Inr k \<Rightarrow> stride_check msk stop step (i + 1) (m + k))
     else if 5 \<le> m then Inr True
     else stride_check msk stop step (i + 1) 0)"
  by pat_completeness auto
termination
  by (relation "measure (\<lambda>(msk, stop, step, i, m). length msk - i)") auto

declare stride_check.simps [simp del]

text \<open>
  One colour's pass of \<open>check_result\<close>: row, column (stride \<open>size+1\<close>), forward
  diagonal (stride \<open>size+2\<close>) and backward diagonal (stride \<open>size\<close>, whose inner
  range stops at the length of the row msk).
\<close>

definition check_color :: "go_board \<Rightarrow> int list \<Rightarrow> int \<Rightarrow> exn + bool" where
  "check_color b cl color =
    (let p = first_stone_point color cl;
         final_list = connected_component b color p;
         row_check = row_scan final_list 0
     in case stride_check final_list (length final_list) (bsize b + 1) 0 0 of
          Inl e \<Rightarrow> Inl e
        | Inr col_check \<Rightarrow>
           (let final_list_dia = connected_component_dia b color p
            in case stride_check final_list_dia (length final_list_dia) (bsize b + 2) 0 0 of
                 Inl e \<Rightarrow> Inl e
               | Inr dia_f_check \<Rightarrow>
                  (case stride_check final_list_dia (length final_list) (bsize b) 0 0 of
                     Inl e \<Rightarrow> Inl e
                   | Inr dia_b_check \<Rightarrow> Inr (dia_b_check \<or> dia_f_check \<or> row_check \<or> col_check))))"

section \<open>Session state and \<open>check_result\<close>\<close>

record session =
  brd :: go_board
  gameOver :: bool
  win_color :: int
  debug_mode :: bool
  out :: string
  err :: string

datatype result = Ok session | Raise exn session

definition check_result :: "session \<Rightarrow> result" where
  "check_result s =
    (case color_list (brd s) of
       Inl e \<Rightarrow> Raise e s
     | Inr cl \<Rightarrow>
        (case check_color (brd s) cl 1 of
           Inl e \<Rightarrow> Raise e s
         | Inr True \<Rightarrow> Ok (s\<lparr>gameOver := True, win_color := 1\<rparr>)
         | Inr False \<Rightarrow>
            (case check_color (brd s) cl 2 of
               Inl e \<Rightarrow> Raise e s
             | Inr True \<Rightarrow> Ok (s\<lparr>gameOver := True, win_color := 2\<rparr>)
             | Inr False \<Rightarrow>
                 if length (get_empty_points (brd s)) = 0
                 then Ok (s\<lparr>win_color := 3, gameOver := True\<rparr>)
                 else Ok s)))"

section \<open>Collaborators outside the source file\<close>

text \<open>
  Modelled from the spec: \<open>MAXSIZE\<close> of \<open>board_util\<close>; the spec bounds the
  board size by 25, and \<open>format_point\<close> asserts \<open>MAXSIZE <= 25\<close>.
\<close>

definition MAXSIZE :: int where "MAXSIZE = 25"

text \<open>
  Modelled from the spec: \<open>coord_to_point\<close> of \<open>board_util\<close>, the linear index
  of a \<open>(row, col)\<close> pair in rows of \<open>boardsize + 1\<close> cells, the inverse of
  \<open>point_to_coord\<close> of the source.
\<close>

definition coord_to_point :: "int \<Rightarrow> int \<Rightarrow> int \<Rightarrow> int" where
  "coord_to_point row col boardsize = (boardsize + 1) * row + col"

text \<open>
  Modelled from the spec: \<open>GoBoardUtil.opponent\<close>; a successful play flips the
  current player, so the opponent of BLACK is WHITE and of WHITE is BLACK.
\<close>

definition opponent :: "int \<Rightarrow> int" where
  "opponent color = WHITE + BLACK - color"

text \<open>
  Modelled from the spec: \<open>board.reset\<close>. Spec 3: a linear index over a
  \<open>(size+1) \<times> (size+1)\<close> array in which index 0 and the extra border row and
  column are sentinels; a reset gives the empty board of the given size. BLACK
  moves first.
\<close>

definition empty_cells :: "int \<Rightarrow> int list" where
  "empty_cells sz =
     map (\<lambda>i. if i div nat (sz + 1) = 0 \<or> i mod nat (sz + 1) = 0 then BORDER else EMPTY)
         [0 ..< nat ((sz + 1) * (sz + 1))]"

definition board_reset :: "int \<Rightarrow> go_board" where
  "board_reset sz = \<lparr>bsize = sz, board = empty_cells sz, current_player = BLACK\<rparr>"

text \<open>
  Modelled from the spec: \<open>board.row_start\<close>, the index of the first playable
  cell of a row.
\<close>

definition row_start :: "go_board \<Rightarrow> int \<Rightarrow> int" where
  "row_start b row = row * (bsize b + 1) + 1"

text \<open>
  What the source takes from the engine, the random generator, the interpreter
  and the rest of the board class is a parameter: the engine's name and version,
  the permutation \<open>np.random.shuffle\<close> applies, \<open>traceback.format_exc\<close>,
  whether \<open>float\<close> accepts a string, the rendering of \<open>get_twoD_board\<close> and
  \<open>generate_legal_moves\<close>.
\<close>

record env =
  engine_name :: string
  engine_version :: string
  shuffle :: "nat list \<Rightarrow> nat list"
  format_exc :: "exn \<Rightarrow> string"
  float_ok :: "string \<Rightarrow> bool"
  twoD_board :: "go_board \<Rightarrow> string"
  generate_legal_moves :: "go_board \<Rightarrow> int \<Rightarrow> nat list"

section \<open>Responses\<close>

definition newline :: char where "newline = char_of (10::nat)"
definition dquote :: char where "dquote = char_of (34::nat)"

definition respond :: "string \<Rightarrow> session \<Rightarrow> session" where
  "respond response s = s\<lparr>out := out s @ ''= '' @ response @ [newline, newline]\<rparr>"

definition error :: "string \<Rightarrow> session \<Rightarrow> session" where
  "error error_msg s = s\<lparr>out := out s @ ''? '' @ error_msg @ [newline, newline]\<rparr>"

definition debug_msg :: "string \<Rightarrow> session \<Rightarrow> session" where
  "debug_msg msg s = (if debug_mode s then s\<lparr>err := err s @ msg\<rparr> else s)"

definition reset :: "int \<Rightarrow> session \<Rightarrow> session" where
  "reset sz s = s\<lparr>brd := board_reset sz, gameOver := False, win_color := -1\<rparr>"

definition color_to_int :: "string \<Rightarrow> exn + int" where
  "color_to_int c =
    (if c = ''b'' then Inr BLACK
     else if c = ''w'' then Inr WHITE
     else if c = ''e'' then Inr EMPTY
     else if c = ''BORDER'' then Inr BORDER
     else Inl (KeyError c))"

definition arg :: "string list \<Rightarrow> nat \<Rightarrow> exn + string" where
  "arg args i = (if i < length args then Inr (args ! i)
                 else Inl (IndexError ''list index out of range''))"

definition point_to_coord :: "nat \<Rightarrow> int \<Rightarrow> exn + move" where
  "point_to_coord point boardsize =
    (let NS = boardsize + 1
     in if NS = 0 then Inl ZeroDivisionError
        else Inr (Coord (int point div NS) (int point mod NS)))"

fun join :: "string \<Rightarrow> string list \<Rightarrow> string" where
  "join sep [] = []"
| "join sep [x] = x"
| "join sep (x # y # ys) = x @ sep @ join sep (y # ys)"

fun map_exn :: "('a \<Rightarrow> exn + 'b) \<Rightarrow> 'a list \<Rightarrow> exn + 'b list" where
  "map_exn f [] = Inr []"
| "map_exn f (x # xs) =
     (case f x of
        Inl e \<Rightarrow> Inl e
      | Inr y \<Rightarrow> (case map_exn f xs of Inl e \<Rightarrow> Inl e | Inr ys \<Rightarrow> Inr (y # ys)))"

text \<open>Reading and writing \<open>board.board[move]\<close> with an integer index.\<close>

definition board_index :: "go_board \<Rightarrow> int \<Rightarrow> exn + nat" where
  "board_index b i =
    (case wrap_index (length (board b)) i of
       Some j \<Rightarrow> Inr j
     | None \<Rightarrow> Inl (IndexError ''index out of bounds''))"

section \<open>Game commands\<close>

definition wrong_color_msg :: "string \<Rightarrow> string" where
  "wrong_color_msg c = ''illegal move: '' @ [dquote] @ c @ [dquote] @ '' wrong color''"

definition wrong_coordinate_msg :: "string \<Rightarrow> string" where
  "wrong_coordinate_msg m = ''illegal move: '' @ [dquote] @ m @ [dquote] @ '' wrong coordinate''"

definition occupied_msg :: "string \<Rightarrow> string" where
  "occupied_msg m = ''illegal move: '' @ [dquote] @ m @ [dquote] @ '' occupied''"

text \<open>
  The part of \<open>play_cmd\<close> after the colour test: the two coordinate tests, the
  decoding of the point, the occupancy test and the move.
\<close>

definition play_move :: "string \<Rightarrow> string \<Rightarrow> int \<Rightarrow> session \<Rightarrow> exn + session" where
  "play_move a1 board_move color s =
    (if color = 3 then Inr (respond (wrong_coordinate_msg (lower a1)) s)
     else case move_to_coord MAXSIZE a1 (bsize (brd s)) of
       Inl e \<Rightarrow> Inl e
     | Inr PASS \<Rightarrow> Inl (TypeError ([CHR 0x27] @ ''NoneType'' @ [CHR 0x27] @ '' object is not subscriptable''))
     | Inr (Coord row col) \<Rightarrow>
        (case board_index (brd s) (coord_to_point row col (bsize (brd s))) of
           Inl e \<Rightarrow> Inl e
         | Inr mv \<Rightarrow>
             if board (brd s) ! mv \<noteq> EMPTY
             then Inr (respond (occupied_msg (lower board_move)) s)
             else Inr (respond []
                    (s\<lparr>brd := (brd s)\<lparr>board := (board (brd s))[mv := color],
                                       current_player := opponent color\<rparr>\<rparr>))))"

text \<open>The body of the \<open>try\<close> block of \<open>play_cmd\<close>.\<close>

definition play_body :: "string list \<Rightarrow> session \<Rightarrow> exn + session" where
  "play_body args s =
    (case arg args 0 of
       Inl e \<Rightarrow> Inl e
     | Inr a0 \<Rightarrow>
    (case arg args 1 of
       Inl e \<Rightarrow> Inl e
     | Inr board_move \<Rightarrow>
    (case color_to_int (lower a0) of
       Inl e \<Rightarrow> Inl e
     | Inr color \<Rightarrow>
        if lower a0 \<noteq> ''b'' \<and> lower a0 \<noteq> ''w''
        then Inr (respond (wrong_color_msg (lower a0)) s)
        else (case py_index (lower board_move) 0 of
           Inl e \<Rightarrow> Inl e
         | Inr c0 \<Rightarrow>
            if ord c0 - ord CHR ''a'' > bsize (brd s)
            then Inr (respond (lower (wrong_coordinate_msg board_move)) s)
            else (case py_int (drop 1 board_move) of
               Inl e \<Rightarrow> Inl e
             | Inr n \<Rightarrow>
                if n > bsize (brd s)
                then Inr (respond (lower (wrong_coordinate_msg board_move)) s)
                else play_move board_move board_move color s)))))"

text \<open>\<open>play_cmd\<close>: every exception of the body becomes a response.\<close>

definition play_cmd :: "string list \<Rightarrow> session \<Rightarrow> result" where
  "play_cmd args s =
    (case play_body args s of
       Inl e \<Rightarrow> Ok (respond (''Error: '' @ str_exn e) s)
     | Inr s' \<Rightarrow> Ok s')"

definition genmove_cmd :: "env \<Rightarrow> string list \<Rightarrow> session \<Rightarrow> result" where
  "genmove_cmd ev args s =
    (case arg args 0 of
       Inl e \<Rightarrow> Raise e s
     | Inr a0 \<Rightarrow>
    (case color_to_int (lower a0) of
       Inl e \<Rightarrow> Raise e s
     | Inr color \<Rightarrow>
    (case check_result s of
       Raise e s1 \<Rightarrow> Raise e s1
     | Ok s1 \<Rightarrow>
        (let moves = shuffle ev (get_empty_points (brd s1))
         in if \<not> gameOver s1 then
              (case moves of
                 [] \<Rightarrow> Raise (IndexError ''index out of bounds'') s1
               | m # ms \<Rightarrow>
                  (case point_to_coord m (bsize (brd s1)) of
                     Inl e \<Rightarrow> Raise e s1
                   | Inr move_coord \<Rightarrow>
                      (case format_point MAXSIZE move_coord of
                         Inl e \<Rightarrow> Raise e s1
                       | Inr move_as_string \<Rightarrow> Ok (respond (lower move_as_string) s1))))
            else if win_color s1 \<noteq> -1 \<and> win_color s1 \<noteq> color \<and> win_color s1 \<noteq> 3
              then Ok (respond ''resign'' s1)
            else if win_color s1 = 3 then Ok (respond ''pass'' s1)
            else Ok (respond [] s1)))))"

definition gogui_rules_final_result_cmd :: "string list \<Rightarrow> session \<Rightarrow> result" where
  "gogui_rules_final_result_cmd args s =
    (case color_list (brd s) of
       Inl e \<Rightarrow> Raise e s
     | Inr cl \<Rightarrow>
        (case check_color (brd s) cl 1 of
           Inl e \<Rightarrow> Raise e s
         | Inr True \<Rightarrow> Ok ((respond ''black'' s)\<lparr>gameOver := True, win_color := 1\<rparr>)
         | Inr False \<Rightarrow>
            (case check_color (brd s) cl 2 of
               Inl e \<Rightarrow> Raise e s
             | Inr True \<Rightarrow> Ok ((respond ''white'' s)\<lparr>gameOver := True, win_color := 2\<rparr>)
             | Inr False \<Rightarrow>
                 if length (get_empty_points (brd s)) = 0
                 then Ok ((respond ''draw'' s)\<lparr>win_color := 3, gameOver := True\<rparr>)
                 else Ok (respond ''unknown'' s))))"

definition gtp_move :: "int \<Rightarrow> nat \<Rightarrow> exn + string" where
  "gtp_move boardsize mv =
    (case point_to_coord mv boardsize of
       Inl e \<Rightarrow> Inl e
     | Inr coords \<Rightarrow> format_point MAXSIZE coords)"

definition gogui_rules_legal_moves_cmd :: "string list \<Rightarrow> session \<Rightarrow> result" where
  "gogui_rules_legal_moves_cmd args s =
    (case check_result s of
       Raise e s1 \<Rightarrow> Raise e s1
     | Ok s1 \<Rightarrow>
        if gameOver s1 then Ok (respond [] s1)
        else (case map_exn (gtp_move (bsize (brd s1))) (get_empty_points (brd s1)) of
                Inl e \<Rightarrow> Raise e s1
              | Inr ms \<Rightarrow> Ok (respond (join '' '' (sort (map lower ms))) s1)))"

section \<open>The other commands\<close>

definition protocol_version_cmd :: "string list \<Rightarrow> session \<Rightarrow> result" where
  "protocol_version_cmd args s = Ok (respond ''2'' s)"

definition quit_cmd :: "string list \<Rightarrow> session \<Rightarrow> result" where
  "quit_cmd args s = Raise SystemExit (respond [] s)"

definition name_cmd :: "env \<Rightarrow> string list \<Rightarrow> session \<Rightarrow> result" where
  "name_cmd ev args s = Ok (respond (engine_name ev) s)"

definition version_cmd :: "env \<Rightarrow> string list \<Rightarrow> session \<Rightarrow> result" where
  "version_cmd ev args s = Ok (respond (engine_version ev) s)"

definition clear_board_cmd :: "string list \<Rightarrow> session \<Rightarrow> result" where
  "clear_board_cmd args s = Ok (respond [] (reset (bsize (brd s)) s))"

definition boardsize_cmd :: "string list \<Rightarrow> session \<Rightarrow> result" where
  "boardsize_cmd args s =
    (case arg args 0 of
       Inl e \<Rightarrow> Raise e s
     | Inr a0 \<Rightarrow>
        (case py_int a0 of
           Inl e \<Rightarrow> Raise e s
         | Inr n \<Rightarrow> Ok (respond [] (reset n s))))"

definition gogui_analyze_cmd :: "string list \<Rightarrow> session \<Rightarrow> result" where
  "gogui_analyze_cmd args s =
     Ok (respond (''pstring/Legal Moves For ToPlay/gogui-rules_legal_moves'' @ [newline]
                @ ''pstring/Side to Play/gogui-rules_side_to_move'' @ [newline]
                @ ''pstring/Final Result/gogui-rules_final_result'' @ [newline]
                @ ''pstring/Board Size/gogui-rules_board_size'' @ [newline]
                @ ''pstring/Rules GameID/gogui-rules_game_id'' @ [newline]
                @ ''pstring/Show Board/gogui-rules_board'' @ [newline]) s)"

definition gogui_rules_game_id_cmd :: "string list \<Rightarrow> session \<Rightarrow> result" where
  "gogui_rules_game_id_cmd args s = Ok (respond ''Gomoku'' s)"

definition gogui_rules_board_size_cmd :: "string list \<Rightarrow> session \<Rightarrow> result" where
  "gogui_rules_board_size_cmd args s = Ok (respond (str_int (bsize (brd s))) s)"

definition gogui_rules_side_to_move_cmd :: "string list \<Rightarrow> session \<Rightarrow> result" where
  "gogui_rules_side_to_move_cmd args s =
     Ok (respond (if current_player (brd s) = BLACK then ''black'' else ''white'') s)"

definition render_cell :: "go_board \<Rightarrow> int \<Rightarrow> exn + char" where
  "render_cell b i =
    (case board_index b i of
       Inl e \<Rightarrow> Inl e
     | Inr j \<Rightarrow>
        (let point = board b ! j
         in if point = BLACK then Inr CHR ''X''
            else if point = WHITE then Inr CHR ''O''
            else if point = EMPTY then Inr CHR ''.''
            else Inl AssertionError))"

definition render_row :: "go_board \<Rightarrow> int \<Rightarrow> exn + string" where
  "render_row b row =
    (case map_exn (\<lambda>i. render_cell b (row_start b (row + 1) + int i)) [0 ..< nat (bsize b)] of
       Inl e \<Rightarrow> Inl e
     | Inr cs \<Rightarrow> Inr (cs @ [newline]))"

definition gogui_rules_board_cmd :: "string list \<Rightarrow> session \<Rightarrow> result" where
  "gogui_rules_board_cmd args s =
    (case map_exn (render_row (brd s)) (rev (map int [0 ..< nat (bsize (brd s))])) of
       Inl e \<Rightarrow> Raise e s
     | Inr rows \<Rightarrow> Ok (respond (concat rows) s))"

definition showboard_cmd :: "env \<Rightarrow> string list \<Rightarrow> session \<Rightarrow> result" where
  "showboard_cmd ev args s = Ok (respond (newline # twoD_board ev (brd s)) s)"

definition komi_cmd :: "env \<Rightarrow> string list \<Rightarrow> session \<Rightarrow> result" where
  "komi_cmd ev args s =
    (case arg args 0 of
       Inl e \<Rightarrow> Raise e s
     | Inr a0 \<Rightarrow>
        if float_ok ev a0 then Ok (respond [] s)
        else Raise (ValueError (''could not convert string to float: '' @ repr a0)) s)"

definition legal_moves_cmd :: "env \<Rightarrow> string list \<Rightarrow> session \<Rightarrow> result" where
  "legal_moves_cmd ev args s =
    (case arg args 0 of
       Inl e \<Rightarrow> Raise e s
     | Inr a0 \<Rightarrow>
    (case color_to_int (lower a0) of
       Inl e \<Rightarrow> Raise e s
     | Inr color \<Rightarrow>
        (case map_exn (gtp_move (bsize (brd s))) (generate_legal_moves ev (brd s) color) of
           Inl e \<Rightarrow> Raise e s
         | Inr ms \<Rightarrow> Ok (respond (join '' '' (sort ms)) s))))"

text \<open>The command table, in the order of the source's dictionary.\<close>

definition command_names :: "string list" where
  "command_names =
    [''protocol_version'', ''quit'', ''name'', ''boardsize'', ''showboard'', ''clear_board'',
     ''komi'', ''version'', ''known_command'', ''genmove'', ''list_commands'', ''play'',
     ''legal_moves'', ''gogui-rules_game_id'', ''gogui-rules_board_size'',
     ''gogui-rules_legal_moves'', ''gogui-rules_side_to_move'', ''gogui-rules_board'',
     ''gogui-rules_final_result'', ''gogui-analyze_commands'']"

definition known_command_cmd :: "string list \<Rightarrow> session \<Rightarrow> result" where
  "known_command_cmd args s =
    (case arg args 0 of
       Inl e \<Rightarrow> Raise e s
     | Inr a0 \<Rightarrow> Ok (respond (if a0 \<in> set command_names then ''true'' else ''false'') s))"

definition list_commands_cmd :: "string list \<Rightarrow> session \<Rightarrow> result" where
  "list_commands_cmd args s = Ok (respond (join '' '' command_names) s)"

type_synonym handler = "string list \<Rightarrow> session \<Rightarrow> result"

definition commands :: "env \<Rightarrow> string \<Rightarrow> handler option" where
  "commands ev name =
    (if name = ''protocol_version'' then Some protocol_version_cmd
     else if name = ''quit'' then Some quit_cmd
     else if name = ''name'' then Some (name_cmd ev)
     else if name = ''boardsize'' then Some boardsize_cmd
     else if name = ''showboard'' then Some (showboard_cmd ev)
     else if name = ''clear_board'' then Some clear_board_cmd
     else if name = ''komi'' then Some (komi_cmd ev)
     else if name = ''version'' then Some (version_cmd ev)
     else if name = ''known_command'' then Some known_command_cmd
     else if name = ''genmove'' then Some (genmove_cmd ev)
     else if name = ''list_commands'' then Some list_commands_cmd
     else if name = ''play'' then Some play_cmd
     else if name = ''legal_moves'' then Some (legal_moves_cmd ev)
     else if name = ''gogui-rules_game_id'' then Some gogui_rules_game_id_cmd
     else if name = ''gogui-rules_board_size'' then Some gogui_rules_board_size_cmd
     else if name = ''gogui-rules_legal_moves'' then Some gogui_rules_legal_moves_cmd
     else if name = ''gogui-rules_side_to_move'' then Some gogui_rules_side_to_move_cmd
     else if name = ''gogui-rules_board'' then Some gogui_rules_board_cmd
     else if name = ''gogui-rules_final_result'' then Some gogui_rules_final_result_cmd
     else if name = ''gogui-analyze_commands'' then Some gogui_analyze_cmd
     else None)"

definition argmap :: "string \<Rightarrow> (nat \<times> string) option" where
  "argmap cmd =
    (if cmd = ''boardsize'' then Some (1, ''Usage: boardsize INT'')
     else if cmd = ''komi'' then Some (1, ''Usage: komi FLOAT'')
     else if cmd = ''known_command'' then Some (1, ''Usage: known_command CMD_NAME'')
     else if cmd = ''genmove'' then Some (1, ''Usage: genmove {w,b}'')
     else if cmd = ''play'' then Some (2, ''Usage: play {b,w} MOVE'')
     else if cmd = ''legal_moves'' then Some (1, ''Usage: legal_moves {w,b}'')
     else None)"

section \<open>The dispatcher\<close>

text \<open>\<open>has_arg_error\<close>: the error response when the arity is wrong, else nothing.\<close>

definition has_arg_error :: "string \<Rightarrow> nat \<Rightarrow> session \<Rightarrow> session option" where
  "has_arg_error cmd argnum s =
    (case argmap cmd of
       Some (n, usage) \<Rightarrow> if n \<noteq> argnum then Some (error usage s) else None
     | None \<Rightarrow> None)"

text \<open>\<open>command.split()\<close>: the maximal runs of non-whitespace characters.\<close>

function split :: "string \<Rightarrow> string list" where
  "split s =
    (let t = dropWhile is_space s
     in if t = [] then []
        else takeWhile (\<lambda>c. \<not> is_space c) t # split (dropWhile (\<lambda>c. \<not> is_space c) t))"
  by pat_completeness auto
termination
proof (relation "measure length")
  show "wf (measure length)" by simp
next
  fix s t :: string
  assume t: "t = dropWhile is_space s" and ne: "t \<noteq> []"
  have "\<not> is_space (hd t)"
    using t ne hd_dropWhile by metis
  then have "length (dropWhile (\<lambda>c. \<not> is_space c) t) < length t"
    using ne by (cases t) (auto simp: le_imp_less_Suc length_dropWhile_le)
  also have "length t \<le> length s"
    using t by (simp add: length_dropWhile_le)
  finally show "(dropWhile (\<lambda>c. \<not> is_space c) t, s) \<in> measure length" by simp
qed

declare split.simps [simp del]

definition strip_blank :: "string \<Rightarrow> string" where
  "strip_blank s =
    (let blank = (\<lambda>c. c = CHR '' '' \<or> c = char_of (13::nat) \<or> c = char_of (9::nat))
     in rev (dropWhile blank (rev (dropWhile blank s))))"

text \<open>
  The \<open>try\<close> of \<open>get_cmd\<close>: an exception of the handler (\<open>except Exception\<close>
  does not catch the \<open>SystemExit\<close> of \<open>quit\<close>) is written to the debug stream
  with its trace and raised again.
\<close>

definition run_handler :: "env \<Rightarrow> handler \<Rightarrow> string list \<Rightarrow> session \<Rightarrow> result" where
  "run_handler ev h args s =
    (case h args s of
       Ok s' \<Rightarrow> Ok s'
     | Raise e s' \<Rightarrow>
         if e = SystemExit then Raise e s'
         else Raise e
           (debug_msg (''Stack Trace:'' @ [newline] @ format_exc ev e @ [newline])
             (debug_msg (''Error executing command '' @ str_exn e @ [newline]) s')))"

text \<open>
  The first half of \<open>get_cmd\<close>: blank lines and comments give nothing, a leading
  number is dropped, and the line is split into the command name and its
  arguments.
\<close>

definition parse_command :: "string \<Rightarrow> (string \<times> string list) option" where
  "parse_command command =
    (if length (strip_blank command) = 0 then None
     else if hd command = CHR ''#'' then None
     else
      (let command1 = (if is_digit (hd command)
                       then dropWhile is_space (dropWhile is_digit command) else command)
       in case split command1 of
            [] \<Rightarrow> None
          | command_name # args \<Rightarrow> Some (command_name, args)))"

definition get_cmd :: "env \<Rightarrow> string \<Rightarrow> session \<Rightarrow> result" where
  "get_cmd ev command s =
    (case parse_command command of
       None \<Rightarrow> Ok s
     | Some (command_name, args) \<Rightarrow>
        (case has_arg_error command_name (length args) s of
           Some s' \<Rightarrow> Ok s'
         | None \<Rightarrow>
            (case commands ev command_name of
               Some h \<Rightarrow> run_handler ev h args s
             | None \<Rightarrow>
                 Ok (error ''Unknown command''
                      (debug_msg (''Unknown command: '' @ command_name @ [newline]) s)))))"

section \<open>Sessions and boards used in the statements\<close>

text \<open>The session \<open>__init__\<close> creates around a board.\<close>

definition new_connection :: "go_board \<Rightarrow> bool \<Rightarrow> session" where
  "new_connection b dbg =
     \<lparr>brd = b, gameOver = False, win_color = -1, debug_mode = dbg, out = [], err = []\<rparr>"

text \<open>
  \<open>start_connection\<close>: the lines read from standard input, one \<open>get_cmd\<close>
  each, until the input ends (an empty read) or a handler's exception ends the
  session.
\<close>

fun start_connection :: "env \<Rightarrow> string list \<Rightarrow> session \<Rightarrow> result" where
  "start_connection ev [] s = Ok s"
| "start_connection ev (line # lines) s =
     (if line = [] then Ok s
      else case get_cmd ev line s of
             Ok s' \<Rightarrow> start_connection ev lines s'
           | Raise e s' \<Rightarrow> Raise e s')"

text \<open>An environment for evaluating closed examples.\<close>

definition sample_env :: env where
  "sample_env = \<lparr>engine_name = ''Go0'', engine_version = ''1.0'', shuffle = (\<lambda>xs. xs),
     format_exc = (\<lambda>e. []), float_ok = (\<lambda>a. False), twoD_board = (\<lambda>b. []),
     generate_legal_moves = (\<lambda>b c. [])\<rparr>"

text \<open>
  Five in a row, stated on the cells and not through the detector's loops: five
  cells of the colour at \<open>p, p + step, ..., p + 4 * step\<close>, for one of the four
  strides of the bordered layout (1 along a row, \<open>size + 1\<close> along a column,
  \<open>size + 2\<close> and \<open>size\<close> along the diagonals).
\<close>

definition five_along :: "bool list \<Rightarrow> nat \<Rightarrow> nat \<Rightarrow> bool" where
  "five_along msk step p =
     list_all (\<lambda>k. p + k * step < length msk \<and> msk ! (p + k * step)) [0 ..< 5]"

definition has_five :: "bool list \<Rightarrow> nat \<Rightarrow> bool" where
  "has_five msk step = (0 < step \<and> list_ex (five_along msk step) [0 ..< length msk])"

definition has_five_in_a_row :: "go_board \<Rightarrow> int \<Rightarrow> bool" where
  "has_five_in_a_row b color =
    (let m = map (\<lambda>c. c = color) (board b)
     in has_five m 1 \<or> has_five m (nat (bsize b + 1))
        \<or> has_five m (nat (bsize b + 2)) \<or> has_five m (nat (bsize b)))"

text \<open>
  The board of size 7 after \<open>play b a1\<close>, \<open>b1\<close>, \<open>c1\<close>, \<open>a2\<close>, \<open>b2\<close>, \<open>c2\<close>: a
  block of two rows and three columns of BLACK stones.
\<close>

definition block_lines :: "string list" where
  "block_lines = [''play b a1'', ''play b b1'', ''play b c1'',
                  ''play b a2'', ''play b b2'', ''play b c2'']"

definition block_board :: go_board where
  "block_board = (board_reset 7)
     \<lparr>board := fold (\<lambda>p cells. cells[p := BLACK]) [9, 10, 11, 17, 18, 19] (board (board_reset 7)),
      current_player := WHITE\<rparr>"

text \<open>
  Two boards of size 5 with a full row of each colour: BLACK on the top row
  (a5 .. e5, the last cells of the array) and WHITE on the bottom row, and the
  same with the colours exchanged.
\<close>

definition top_row_lines :: "string list" where
  "top_row_lines = [''play b a5'', ''play b b5'', ''play b c5'', ''play b d5'', ''play b e5'',
                    ''play w a1'', ''play w b1'', ''play w c1'', ''play w d1'', ''play w e1'']"

definition black_top_board :: go_board where
  "black_top_board = (board_reset 5)
     \<lparr>board := fold (\<lambda>p cells. cells[p := WHITE]) [7, 8, 9, 10, 11]
                 (fold (\<lambda>p cells. cells[p := BLACK]) [31, 32, 33, 34, 35] (board (board_reset 5))),
      current_player := BLACK\<rparr>"

definition black_bottom_board :: go_board where
  "black_bottom_board = (board_reset 5)
     \<lparr>board := fold (\<lambda>p cells. cells[p := BLACK]) [7, 8, 9, 10, 11]
                 (fold (\<lambda>p cells. cells[p := WHITE]) [31, 32, 33, 34, 35] (board (board_reset 5)))\<rparr>"

text \<open>The session a command leaves behind, whether it returns or raises.\<close>

definition session_of :: "result \<Rightarrow> session" where
  "session_of r = (case r of Ok s \<Rightarrow> s | Raise e s \<Rightarrow> s)"

text \<open>
  The verdict fields across one command that is not a reset: unchanged, or a
  decisive verdict (1 for BLACK, 2 for WHITE, 3 for a draw).
\<close>

definition verdict_step :: "session \<Rightarrow> session \<Rightarrow> bool" where
  "verdict_step s s' =
     ((gameOver s' = gameOver s \<and> win_color s' = win_color s)
      \<or> (gameOver s' \<and> win_color s' \<in> {1, 2, 3}))"

text \<open>The lines that name \<open>boardsize\<close> or \<open>clear_board\<close>.\<close>

definition is_reset_line :: "string \<Rightarrow> bool" where
  "is_reset_line line =
    (case parse_command line of
       None \<Rightarrow> False
     | Some (name, args) \<Rightarrow> name = ''boardsize'' \<or> name = ''clear_board'')"

text \<open>
  The sessions a connection can be in: the one \<open>__init__\<close> creates, and those
  \<open>get_cmd\<close> returns from them.
\<close>

inductive reachable :: "env \<Rightarrow> session \<Rightarrow> bool" for ev :: env where
  start: "reachable ev (new_connection b dbg)"
| step: "reachable ev s \<Longrightarrow> get_cmd ev line s = Ok s' \<Longrightarrow> reachable ev s'"

text \<open>
  A game on the board of size 5: WHITE fills the bottom row and the result is
  asked for, then BLACK fills the second row.
\<close>

definition white_then_black_lines :: "string list" where
  "white_then_black_lines =
    [''play w a1'', ''play w b1'', ''play w c1'', ''play w d1'', ''play w e1'',
     ''gogui-rules_final_result'',
     ''play b a2'', ''play b b2'', ''play b c2'', ''play b d2'', ''play b e2'']"

definition two_rows_board :: go_board where
  "two_rows_board = (board_reset 5)
     \<lparr>board := fold (\<lambda>p cells. cells[p := BLACK]) [13, 14, 15, 16, 17]
                 (fold (\<lambda>p cells. cells[p := WHITE]) [7, 8, 9, 10, 11] (board (board_reset 5))),
      current_player := WHITE\<rparr>"

definition white_recorded :: session where
  "white_recorded = (new_connection two_rows_board False)
     \<lparr>gameOver := True, win_color := 2,
      out := concat (replicate 5 (''= '' @ [newline, newline])) @ ''= white'' @ [newline, newline]
             @ concat (replicate 5 (''= '' @ [newline, newline]))\<rparr>"

text \<open>A session in which BLACK's win on the bottom row has been recorded.\<close>

definition black_won :: session where
  "black_won = (new_connection black_bottom_board False)\<lparr>gameOver := True, win_color := 1\<rparr>"

section \<open>Properties: the play command\<close>

lemma move_to_coord_D4: "move_to_coord MAXSIZE ''D4'' 9 = Inr (Coord 4 4)"
  by code_simp

lemma play_b_D4_checks:
  "lower ''b'' = ''b''" "color_to_int ''b'' = Inr BLACK"
  "py_index ''d4'' 0 = Inr CHR ''d''" "ord CHR ''d'' - ord CHR ''a'' = 3"
  "py_int ''4'' = Inr 4" "coord_to_point 4 4 9 = 44" "lower ''D4'' = ''d4''"
  by code_simp+

lemma play_b_D4_empty:
  assumes "bsize (brd s) = 9" "44 < length (board (brd s))" "board (brd s) ! 44 = EMPTY"
  shows "play_cmd [''b'', ''D4''] s =
    Ok (respond [] (s\<lparr>brd := (brd s)\<lparr>board := (board (brd s))[44 := BLACK], current_player := WHITE\<rparr>\<rparr>))"
proof -
  have idx: "board_index (brd s) 44 = Inr 44"
    using assms(2) by (simp add: board_index_def wrap_index_def)
  have "play_move ''D4'' ''D4'' BLACK s =
    Inr (respond [] (s\<lparr>brd := (brd s)\<lparr>board := (board (brd s))[44 := BLACK], current_player := WHITE\<rparr>\<rparr>))"
    using assms idx by (simp add: play_move_def move_to_coord_D4 play_b_D4_checks BLACK_def WHITE_def opponent_def)
  then show ?thesis
    using assms by (simp add: play_cmd_def play_body_def arg_def play_b_D4_checks)
qed

lemma play_b_D4_occupied:
  assumes "bsize (brd s) = 9" "44 < length (board (brd s))" "board (brd s) ! 44 \<noteq> EMPTY"
  shows "play_cmd [''b'', ''D4''] s = Ok (respond (occupied_msg ''d4'') s)"
proof -
  have idx: "board_index (brd s) 44 = Inr 44"
    using assms(2) by (simp add: board_index_def wrap_index_def)
  have "play_move ''D4'' ''D4'' BLACK s = Inr (respond (occupied_msg ''d4'') s)"
    using assms idx by (simp add: play_move_def move_to_coord_D4 play_b_D4_checks BLACK_def)
  then show ?thesis
    using assms by (simp add: play_cmd_def play_body_def arg_def play_b_D4_checks)
qed

lemma run_handler_play_cmd: "run_handler ev play_cmd args s = play_cmd args s"
  by (simp add: run_handler_def play_cmd_def split: sum.split)

lemma get_cmd_play_b_D4: "get_cmd ev ''play b D4'' s = play_cmd [''b'', ''D4''] s"
proof -
  have a: "parse_command ''play b D4'' = Some (''play'', [''b'', ''D4''])" by code_simp
  have b: "has_arg_error ''play'' (length [''b'', ''D4'']) s = None"
    by (simp add: has_arg_error_def argmap_def)
  have c: "commands ev ''play'' = Some play_cmd" by (simp add: commands_def)
  have "get_cmd ev ''play b D4'' s = run_handler ev play_cmd [''b'', ''D4''] s"
    unfolding get_cmd_def a by (simp add: b c del: length_Cons list.size)
  then show ?thesis by (simp add: run_handler_play_cmd)
qed

lemma board_reset_9:
  "bsize (board_reset 9) = 9" "length (board (board_reset 9)) = 100"
  "board (board_reset 9) ! 44 = EMPTY"
  by code_simp+

text \<open>
  C6, as the code has it. On the empty board of size 9 the line \<open>play b D4\<close>
  writes exactly \<open>= \<close> and two newlines, puts BLACK on the cell of D4 (index 44)
  and makes WHITE the current player. The same line again writes the message
  \<open>illegal move: "d4" occupied\<close>, framed by \<open>respond\<close> as \<open>= ...\<close> like every
  answer of \<open>play_cmd\<close>, and changes neither the board nor the current player.
\<close>

theorem play_b_D4_twice:
  "let s0 = s\<lparr>brd := board_reset 9\<rparr>;
       b1 = (board_reset 9)\<lparr>board := (board (board_reset 9))[44 := BLACK],
                            current_player := WHITE\<rparr>;
       s1 = s0\<lparr>brd := b1, out := out s @ ''= '' @ [newline, newline]\<rparr>
   in coord_to_point 4 4 9 = 44
      \<and> board b1 ! 44 = BLACK \<and> current_player b1 = WHITE
      \<and> get_cmd ev ''play b D4'' s0 = Ok s1
      \<and> get_cmd ev ''play b D4'' s1 =
          Ok (s1\<lparr>out := out s1 @ ''= illegal move: '' @ [dquote] @ ''d4'' @ [dquote]
                              @ '' occupied'' @ [newline, newline]\<rparr>)"
proof -
  define s0 where "s0 = s\<lparr>brd := board_reset 9\<rparr>"
  define b1 where "b1 = (board_reset 9)\<lparr>board := (board (board_reset 9))[44 := BLACK],
                            current_player := WHITE\<rparr>"
  define s1 where "s1 = s0\<lparr>brd := b1, out := out s @ ''= '' @ [newline, newline]\<rparr>"
  have first: "get_cmd ev ''play b D4'' s0 = Ok s1"
    unfolding get_cmd_play_b_D4
    by (subst play_b_D4_empty) (simp_all add: s0_def s1_def b1_def board_reset_9 respond_def)
  have cell: "board b1 ! 44 = BLACK"
    by (simp add: b1_def board_reset_9)
  have "board (brd s1) ! 44 \<noteq> EMPTY"
    using cell by (simp add: s1_def BLACK_def EMPTY_def)
  then have second: "get_cmd ev ''play b D4'' s1 = Ok (respond (occupied_msg ''d4'') s1)"
    unfolding get_cmd_play_b_D4
    by (intro play_b_D4_occupied) (simp_all add: s1_def b1_def board_reset_9)
  show ?thesis
    using first second cell
    by (simp add: Let_def s0_def s1_def b1_def respond_def occupied_msg_def play_b_D4_checks)
qed

text \<open>
  C6, as stated, fails on the framing of the second answer: it is not an error
  response (\<open>? ...\<close>) but a success response (\<open>= ...\<close>).
\<close>

theorem play_b_D4_occupied_not_error_framed:
  "(case play_cmd [''b'', ''D4''] (new_connection (board_reset 9) False) of
      Raise e s \<Rightarrow> False
    | Ok s1 \<Rightarrow>
       (case play_cmd [''b'', ''D4''] s1 of
          Raise e s \<Rightarrow> False
        | Ok s2 \<Rightarrow> take 2 (drop (length (out s1)) (out s2)) = ''= ''
                   \<and> take 2 (drop (length (out s1)) (out s2)) \<noteq> ''? ''))"
proof -
  define s0 where "s0 = new_connection (board_reset 9) False"
  define s1 where "s1 = respond [] (s0\<lparr>brd := (brd s0)\<lparr>board := (board (brd s0))[44 := BLACK],
                            current_player := WHITE\<rparr>\<rparr>)"
  have first: "play_cmd [''b'', ''D4''] s0 = Ok s1"
    unfolding s1_def
    by (intro play_b_D4_empty) (simp_all add: s0_def new_connection_def board_reset_9)
  have "board (brd s1) ! 44 \<noteq> EMPTY"
    by (simp add: s1_def s0_def new_connection_def respond_def board_reset_9 BLACK_def EMPTY_def)
  then have second: "play_cmd [''b'', ''D4''] s1 = Ok (respond (occupied_msg ''d4'') s1)"
    by (intro play_b_D4_occupied)
       (simp_all add: s1_def s0_def new_connection_def respond_def board_reset_9)
  show ?thesis
    using first second
    by (simp add: s0_def [symmetric] respond_def occupied_msg_def)
qed

text \<open>
  C3 at its failing input. A colour token that \<open>color_to_int\<close> does not know
  (anything but b, w and e once lowered) raises KeyError before the colour test
  of \<open>play_cmd\<close> is reached; the handler answers \<open>Error: \<close> followed by the
  \<open>repr\<close> of the token, which names no check, and leaves the session otherwise
  as it was.
\<close>

theorem play_unknown_color_token:
  assumes "lower c \<notin> {''b'', ''w'', ''e'', ''BORDER''}"
  shows "play_cmd [c, m] s = Ok (respond (''Error: '' @ repr (lower c)) s)"
proof -
  have "color_to_int (lower c) = Inl (KeyError (lower c))"
    using assms by (simp add: color_to_int_def)
  then show ?thesis
    by (simp add: play_cmd_def play_body_def arg_def str_exn_def)
qed

theorem play_unknown_color_token_witness:
  "play_cmd [''x'', ''D4''] (new_connection (board_reset 9) False) =
     Ok (respond (''Error: '' @ [CHR 0x27, CHR ''x'', CHR 0x27]) (new_connection (board_reset 9) False))"
proof -
  have a: "lower ''x'' \<notin> {''b'', ''w'', ''e'', ''BORDER''}" by code_simp
  have b: "repr (lower ''x'') = [CHR 0x27, CHR ''x'', CHR 0x27]" by code_simp
  show ?thesis
    using play_unknown_color_token [OF a, of "''D4''" "new_connection (board_reset 9) False"]
    by (simp only: b)
qed

section \<open>Properties: the coordinate codec\<close>

text \<open>
  Below \<open>MAXSIZE\<close> the codec does round-trip: rows and columns \<open>1 .. 24\<close>
  are encoded, and decoded to the same pair on every board that holds them.
\<close>

lemma column_letter_decodes:
  "list_all (\<lambda>col. case py_index column_letters (col - 1) of
        Inl e \<Rightarrow> False
      | Inr c \<Rightarrow>
          ord CHR ''a'' \<le> ord (lower_char c) \<and> ord (lower_char c) \<le> ord CHR ''z''
        \<and> lower_char c \<noteq> CHR ''i''
        \<and> (if ord (lower_char c) < ord CHR ''i'' then ord (lower_char c) - ord CHR ''a'' + 1
             else ord (lower_char c) - ord CHR ''a'') = col) [1 .. 24]"
  by code_simp

lemma row_digits_decode:
  "list_all (\<lambda>row. lower (str_int row) = str_int row \<and> str_int row \<noteq> ''ass''
       \<and> py_int (str_int row) = Inr row) [1 .. 24]"
  by code_simp

lemma roundtrip_below_maxsize:
  assumes "maxsize \<le> 25" "2 \<le> bs" "bs \<le> maxsize"
    and "1 \<le> row" "row \<le> bs" "row < maxsize"
    and "1 \<le> col" "col \<le> bs" "col < maxsize"
  shows "\<exists>s. format_point maxsize (Coord row col) = Inr s
           \<and> move_to_coord maxsize s bs = Inr (Coord row col)"
proof -
  have "col \<in> set [1 .. 24]" "row \<in> set [1 .. 24]" using assms by auto
  then have cc: "case py_index column_letters (col - 1) of
        Inl e \<Rightarrow> False
      | Inr c \<Rightarrow>
          ord CHR ''a'' \<le> ord (lower_char c) \<and> ord (lower_char c) \<le> ord CHR ''z''
        \<and> lower_char c \<noteq> CHR ''i''
        \<and> (if ord (lower_char c) < ord CHR ''i'' then ord (lower_char c) - ord CHR ''a'' + 1
             else ord (lower_char c) - ord CHR ''a'') = col"
    and r: "lower (str_int row) = str_int row" "str_int row \<noteq> ''ass''"
       "py_int (str_int row) = Inr row"
    using column_letter_decodes row_digits_decode unfolding list_all_iff by blast+
  then obtain c where c: "py_index column_letters (col - 1) = Inr c"
      "ord CHR ''a'' \<le> ord (lower_char c)" "ord (lower_char c) \<le> ord CHR ''z''"
      "lower_char c \<noteq> CHR ''i''"
      "(if ord (lower_char c) < ord CHR ''i'' then ord (lower_char c) - ord CHR ''a'' + 1
           else ord (lower_char c) - ord CHR ''a'') = col"
    by (cases "py_index column_letters (col - 1)") auto
  have f: "format_point maxsize (Coord row col) = Inr (c # str_int row)"
    using assms c(1) by (simp add: format_point_def)
  have l: "lower (c # str_int row) = lower_char c # str_int row"
    using r(1) by (simp add: lower_def)
  have "move_to_coord maxsize (c # str_int row) bs = Inr (Coord row col)"
    unfolding move_to_coord_def l Let_def
    using assms c(2-5) r(2,3) by (simp split: if_splits)
  then show ?thesis using f by blast
qed

text \<open>
  C2 at its failing input. \<open>format_point\<close> accepts rows and columns
  \<open>0 .. MAXSIZE - 1\<close>, so row 25, valid on a board of size 25, is refused
  whatever \<open>MAXSIZE\<close> is: with \<open>MAXSIZE \<le> 25\<close> by the range test, above 25 by
  the assertion. Nothing is encoded, so nothing decodes back to the pair.
\<close>

theorem format_point_row_25_raises:
  "format_point maxsize (Coord 25 col) =
     Inl (if maxsize \<le> 25 then ValueError [] else AssertionError)"
  by (simp add: format_point_def)

theorem format_point_row_25_raises_witness:
  "format_point MAXSIZE (Coord 25 25) = Inl (ValueError [])"
  using format_point_row_25_raises [of MAXSIZE 25] by (simp add: MAXSIZE_def)

section \<open>Properties: the win detector on a block of six stones\<close>

lemma block_board_reached:
  "start_connection sample_env block_lines (new_connection (board_reset 7) False)
   = Ok ((new_connection block_board False)\<lparr>out := concat (replicate 6 (''= '' @ [newline, newline]))\<rparr>)"
  by code_simp

text \<open>
  C1 at its failing input. On the mask of BLACK for the block of six stones, the
  column check (stride \<open>size + 1\<close>) and both diagonal checks (strides \<open>size + 2\<close>
  and \<open>size\<close>) signal a win, although no five cells of the mask lie along any of
  these strides: the inner loop counts every true cell up to the end of the mask
  without stopping at a false one, and the counter is carried from one true
  starting cell to the next.
\<close>

theorem stride_checks_signal_on_block:
  "let m = connected_component block_board BLACK 9 in
     stride_check m (length m) (bsize block_board + 1) 0 0 = Inr True
   \<and> stride_check m (length m) (bsize block_board + 2) 0 0 = Inr True
   \<and> stride_check m (length m) (bsize block_board) 0 0 = Inr True
   \<and> \<not> has_five m (nat (bsize block_board + 1))
   \<and> \<not> has_five m (nat (bsize block_board + 2))
   \<and> \<not> has_five m (nat (bsize block_board))"
  by code_simp

text \<open>
  When neither pass signals, \<open>check_result\<close> records a draw on a board with
  no empty point and leaves the session as it is otherwise.
\<close>

lemma check_result_no_signal:
  assumes "color_list (brd s) = Inr cl"
    and "check_color (brd s) cl 1 = Inr False" "check_color (brd s) cl 2 = Inr False"
  shows "check_result s =
     (if get_empty_points (brd s) = [] then Ok (s\<lparr>win_color := 3, gameOver := True\<rparr>) else Ok s)"
  using assms by (simp add: check_result_def)

text \<open>
  C5 at its failing input. On the block of six stones neither colour has five in
  a row and empty points remain, yet \<open>check_result\<close> ends the game with BLACK as
  the winner instead of leaving the session undecided.
\<close>

theorem check_result_block_not_undecided:
  "\<not> has_five_in_a_row block_board BLACK \<and> \<not> has_five_in_a_row block_board WHITE
   \<and> get_empty_points block_board \<noteq> []
   \<and> check_result (new_connection block_board False)
       = Ok ((new_connection block_board False)\<lparr>gameOver := True, win_color := 1\<rparr>)"
  by code_simp

section \<open>Properties: the loops of the win detector\<close>

lemma stride_scan_total:
  "stop \<le> length msk \<Longrightarrow> \<exists>k. stride_scan msk stop step j = Inr k"
proof (induction msk stop step j rule: stride_scan.induct)
  case (1 msk stop step j)
  show ?case
  proof (cases "step = 0 \<or> stop \<le> j")
    case True
    then show ?thesis by (subst stride_scan.simps) auto
  next
    case False
    then have inr: "\<not> length msk \<le> j" using 1(2) by simp
    obtain k where "stride_scan msk stop step (j + step) = Inr k"
      using 1(1) [OF False inr] 1(2) by blast
    then show ?thesis using False inr by (subst stride_scan.simps) auto
  qed
qed

lemma range_scan_total:
  "stop \<le> length msk \<Longrightarrow> step \<noteq> 0 \<Longrightarrow> \<exists>k. range_scan msk stop step j = Inr k"
  using stride_scan_total by (simp add: range_scan_def)

lemma stride_check_total:
  "stop \<le> length msk \<Longrightarrow> step \<noteq> 0 \<Longrightarrow> \<exists>r. stride_check msk stop step i m = Inr r"
proof (induction msk stop step i m rule: stride_check.induct)
  case (1 msk stop step i m)
  show ?case
  proof (cases "length msk \<le> i")
    case True
    then show ?thesis by (subst stride_check.simps) auto
  next
    case out: False
    show ?thesis
    proof (cases "msk ! i")
      case True
      obtain k where k: "range_scan msk stop step i = Inr k"
        using range_scan_total [OF 1(3) 1(4)] by blast
      show ?thesis
        using 1(1) [OF out True k 1(3) 1(4)] out True k by (subst stride_check.simps) simp
    next
      case False
      show ?thesis
      proof (cases "5 \<le> m")
        case True
        then show ?thesis using out False by (subst stride_check.simps) auto
      next
        case m: False
        show ?thesis
          using 1(2) [OF out False m 1(3) 1(4)] out False m by (subst stride_check.simps) simp
      qed
    qed
  qed
qed

lemma stride_check_all_false:
  "\<forall>j < length msk. \<not> msk ! j \<Longrightarrow> stride_check msk stop step i 0 = Inr False"
proof (induction "length msk - i" arbitrary: i)
  case 0
  then show ?case by (subst stride_check.simps) simp
next
  case (Suc n)
  then have "i < length msk" by simp
  moreover have "stride_check msk stop step (i + 1) 0 = Inr False"
    using Suc by simp
  ultimately show ?case using Suc.prems by (subst stride_check.simps) simp
qed

lemma row_scan_all_false: "\<forall>x \<in> set xs. \<not> x \<Longrightarrow> row_scan xs 0 = False"
  by (induction xs) auto

lemma check_color_absent_aux:
  assumes "color \<notin> set (board b)"
  shows "check_color b cl color = Inr False"
proof -
  define m where "m = map (\<lambda>c. c = color) (board b)"
  have f: "\<forall>j < length m. \<not> m ! j"
    using assms by (auto simp: m_def)
  have r: "row_scan m 0 = False"
    using assms by (intro row_scan_all_false) (auto simp: m_def)
  show ?thesis
    unfolding check_color_def connected_component_def connected_component_dia_def Let_def
      m_def [symmetric]
    by (simp add: stride_check_all_false [OF f] r)
qed

lemma five_alongD:
  "five_along msk step p \<Longrightarrow> k < 5 \<Longrightarrow> p + k * step < length msk \<and> msk ! (p + k * step)"
  by (simp add: five_along_def list_all_iff)

lemma stride_scan_run:
  assumes "0 < step"
  shows "(\<And>k. k < n \<Longrightarrow> p + k * step < length msk \<and> msk ! (p + k * step))
     \<Longrightarrow> \<exists>r. stride_scan msk (length msk) step p = Inr r \<and> n \<le> r"
proof (induction n arbitrary: p)
  case 0
  then show ?case using stride_scan_total [of "length msk" msk step p] by auto
next
  case (Suc n)
  have here: "p < length msk" "msk ! p"
    using Suc.prems [of 0] by simp_all
  have "p + step + k * step < length msk \<and> msk ! (p + step + k * step)" if "k < n" for k
    using Suc.prems [of "Suc k"] that by (simp add: algebra_simps)
  then obtain r where "stride_scan msk (length msk) step (p + step) = Inr r" "n \<le> r"
    using Suc.IH [of "p + step"] by blast
  then show ?case using here assms by (subst stride_scan.simps) simp
qed

lemma stride_scan_five:
  assumes "five_along msk step p" "0 < step"
  shows "\<exists>k. stride_scan msk (length msk) step p = Inr k \<and> 5 \<le> k"
  using stride_scan_run [OF assms(2), of 5 p msk] five_alongD [OF assms(1)] by blast

text \<open>The column and diagonal loops signal when the counter is at least 5 and a false
  cell is still to come, or when a line of five starts at or after the current index
  and a false cell follows its start.\<close>

lemma stride_check_signals:
  "stop = length msk \<Longrightarrow> 0 < step \<Longrightarrow>
     (5 \<le> m \<and> (\<exists>q. i \<le> q \<and> q < length msk \<and> \<not> msk ! q))
       \<or> (\<exists>p. i \<le> p \<and> five_along msk (nat step) p \<and> (\<exists>q. p < q \<and> q < length msk \<and> \<not> msk ! q))
     \<Longrightarrow> stride_check msk stop step i m = Inr True"
proof (induction msk stop step i m rule: stride_check.induct)
  case (1 msk stop step i m)
  note stop = 1(3) and assms = 1(4) and hyp = 1(5)
  have inb: "i < length msk"
    using hyp five_alongD [of msk "nat step" _ 0] by fastforce
  show ?case
  proof (cases "msk ! i")
    case True
    have "\<exists>k. range_scan msk stop step i = Inr k \<and> (five_along msk (nat step) i \<longrightarrow> 5 \<le> k)"
    proof (cases "five_along msk (nat step) i")
      case five: True
      then show ?thesis
        using stride_scan_five [OF five] assms stop by (simp add: range_scan_def)
    next
      case False
      then show ?thesis
        using stride_scan_total [of "length msk" msk "nat step" i] assms stop
        by (simp add: range_scan_def)
    qed
    then obtain k where k: "range_scan msk stop step i = Inr k"
      and k5: "five_along msk (nat step) i \<longrightarrow> 5 \<le> k"
      by blast
    have "(5 \<le> m + k \<and> (\<exists>q. i + 1 \<le> q \<and> q < length msk \<and> \<not> msk ! q))
       \<or> (\<exists>p. i + 1 \<le> p \<and> five_along msk (nat step) p \<and> (\<exists>q. p < q \<and> q < length msk \<and> \<not> msk ! q))"
      using hyp
    proof (elim disjE conjE exE)
      fix q assume "5 \<le> m" "i \<le> q" "q < length msk" "\<not> msk ! q"
      then have "i + 1 \<le> q" using True by (cases "q = i") auto
      then show ?thesis using \<open>5 \<le> m\<close> \<open>q < length msk\<close> \<open>\<not> msk ! q\<close> by auto
    next
      fix p q assume p: "i \<le> p" "five_along msk (nat step) p" "p < q" "q < length msk" "\<not> msk ! q"
      show ?thesis
      proof (cases "p = i")
        case True
        then have "5 \<le> m + k" using k5 p(2) by simp
        moreover have "i + 1 \<le> q" using p(3) True by simp
        ultimately show ?thesis using p(4,5) by auto
      next
        case False
        then have "i + 1 \<le> p" using p(1) by simp
        then show ?thesis using p by auto
      qed
    qed
    then have "stride_check msk stop step (i + 1) (m + k) = Inr True"
      using 1(1) inb True k stop assms by simp
    then show ?thesis using inb True k by (subst stride_check.simps) simp
  next
    case False
    show ?thesis
    proof (cases "5 \<le> m")
      case True
      then show ?thesis using inb False by (subst stride_check.simps) simp
    next
      case m: False
      have "\<exists>p. i + 1 \<le> p \<and> five_along msk (nat step) p \<and> (\<exists>q. p < q \<and> q < length msk \<and> \<not> msk ! q)"
        using hyp m
      proof (elim disjE conjE exE)
        fix p q assume p: "i \<le> p" "five_along msk (nat step) p" "p < q" "q < length msk" "\<not> msk ! q"
        have "msk ! p" using five_alongD [OF p(2), of 0] by simp
        then have "p \<noteq> i" using False by auto
        then show ?thesis using p by (intro exI [of _ p]) auto
      qed simp
      then have "stride_check msk stop step (i + 1) 0 = Inr True"
        using 1(2) inb False m stop assms by simp
      then show ?thesis using inb False m by (subst stride_check.simps) simp
    qed
  qed
qed

lemma row_scan_counter: "5 \<le> m \<Longrightarrow> False \<in> set xs \<Longrightarrow> row_scan xs m"
  by (induction xs arbitrary: m) auto

lemma row_scan_run: "5 \<le> m + n \<Longrightarrow> False \<in> set ys \<Longrightarrow> row_scan (replicate n True @ ys) m"
proof (induction n arbitrary: m)
  case 0
  then show ?case by (simp add: row_scan_counter)
next
  case (Suc n)
  then show ?case by simp
qed

lemma row_scan_five: "False \<in> set ys \<Longrightarrow> row_scan (pre @ replicate 5 True @ ys) m"
proof (induction pre arbitrary: m)
  case Nil
  then show ?case by (simp add: row_scan_run)
next
  case (Cons x pre)
  then show ?case by simp
qed

lemma row_scan_signals:
  assumes five: "five_along msk 1 p" and q: "p < q" "q < length msk" "\<not> msk ! q"
  shows "row_scan msk 0"
proof -
  have c: "p + k < length msk" "msk ! (p + k)" if "k < 5" for k
    using five_alongD [OF five that] by simp_all
  have q5: "p + 5 \<le> q"
  proof (rule ccontr)
    assume "\<not> p + 5 \<le> q"
    then have "q - p < 5" "q = p + (q - p)" using q(1) by simp_all
    then show False using c(2) [of "q - p"] q(3) by simp
  qed
  have "take 5 (drop p msk) = replicate 5 True"
  proof (rule nth_equalityI)
    show "length (take 5 (drop p msk)) = length (replicate 5 True)"
      using c(1) [of 4] by simp
  next
    fix i assume "i < length (take 5 (drop p msk))"
    then have "i < 5" by simp
    then show "take 5 (drop p msk) ! i = replicate 5 True ! i"
      using c [of i] by simp
  qed
  then have split: "msk = take p msk @ replicate 5 True @ drop (p + 5) msk"
    by (metis add.commute append_take_drop_id drop_drop)
  have "q - (p + 5) < length (drop (p + 5) msk)"
    using q5 q(2) by simp
  then have "drop (p + 5) msk ! (q - (p + 5)) \<in> set (drop (p + 5) msk)"
    by (rule nth_mem)
  moreover have "drop (p + 5) msk ! (q - (p + 5)) = msk ! q"
    using q5 q(2) by simp
  ultimately have "False \<in> set (drop (p + 5) msk)" using q(3) by simp
  then show ?thesis
    using row_scan_five [of "drop (p + 5) msk" "take p msk" 0] split by simp
qed

lemma collect_colors_total:
  "\<forall>i \<in> set is. i < length (board b) \<Longrightarrow> \<exists>cl. collect_colors b is = Inr cl"
  by (induction "is") (auto simp: get_color_def)

lemma color_list_total:
  "nat ((bsize b + 1) * (bsize b + 1) - 1) \<le> length (board b) \<Longrightarrow> \<exists>cl. color_list b = Inr cl"
  unfolding color_list_def by (rule collect_colors_total) auto

lemma check_color_value:
  assumes "1 \<le> bsize b"
  shows "\<exists>col df db. 
      stride_check (map (\<lambda>c. c = color) (board b)) (length (board b)) (bsize b + 1) 0 0 = Inr col
    \<and> stride_check (map (\<lambda>c. c = color) (board b)) (length (board b)) (bsize b + 2) 0 0 = Inr df
    \<and> stride_check (map (\<lambda>c. c = color) (board b)) (length (board b)) (bsize b) 0 0 = Inr db
    \<and> check_color b cl color = Inr (db \<or> df \<or> row_scan (map (\<lambda>c. c = color) (board b)) 0 \<or> col)"
proof -
  define m where "m = map (\<lambda>c. c = color) (board b)"
  have len: "length (board b) \<le> length m" by (simp add: m_def)
  obtain col where col: "stride_check m (length (board b)) (bsize b + 1) 0 0 = Inr col"
    using stride_check_total [OF len, of "bsize b + 1" 0 0] assms by auto
  obtain df where df: "stride_check m (length (board b)) (bsize b + 2) 0 0 = Inr df"
    using stride_check_total [OF len, of "bsize b + 2" 0 0] assms by auto
  obtain db where db: "stride_check m (length (board b)) (bsize b) 0 0 = Inr db"
    using stride_check_total [OF len, of "bsize b" 0 0] assms by auto
  have "check_color b cl color = Inr (db \<or> df \<or> row_scan m 0 \<or> col)"
    unfolding check_color_def connected_component_def connected_component_dia_def Let_def
      m_def [symmetric]
    using col df db by (simp add: m_def)
  then show ?thesis using col df db unfolding m_def by blast
qed

lemma check_color_total: "1 \<le> bsize b \<Longrightarrow> \<exists>r. check_color b cl color = Inr r"
  using check_color_value by blast

lemma check_color_signals:
  assumes size: "1 \<le> bsize b"
    and step: "step \<in> {1, nat (bsize b + 1), nat (bsize b + 2), nat (bsize b)}"
    and five: "five_along (map (\<lambda>c. c = color) (board b)) step p"
    and q: "p < q" "q < length (board b)" "board b ! q \<noteq> color"
  shows "check_color b cl color = Inr True"
proof -
  define m where "m = map (\<lambda>c. c = color) (board b)"
  have mq: "q < length m" "\<not> m ! q" using q by (simp_all add: m_def)
  have len: "length (board b) = length m" by (simp add: m_def)
  obtain col df db where v:
    "stride_check m (length (board b)) (bsize b + 1) 0 0 = Inr col"
    "stride_check m (length (board b)) (bsize b + 2) 0 0 = Inr df"
    "stride_check m (length (board b)) (bsize b) 0 0 = Inr db"
    "check_color b cl color = Inr (db \<or> df \<or> row_scan m 0 \<or> col)"
    using check_color_value [OF size, of color cl] unfolding m_def by blast
  have sig: "stride_check m (length (board b)) st 0 0 = Inr True"
    if "0 < st" "step = nat st" for st
    using stride_check_signals [OF len that(1), of 0 0] five q(1) mq that(2)
    unfolding m_def by blast
  consider "step = 1" | "step = nat (bsize b + 1)" | "step = nat (bsize b + 2)" | "step = nat (bsize b)"
    using step by blast
  then have "db \<or> df \<or> row_scan m 0 \<or> col"
  proof cases
    case 1
    then show ?thesis using row_scan_signals [of m p q] five q(1) mq unfolding m_def by simp
  next
    case 2
    then show ?thesis using sig [of "bsize b + 1"] v(1) size by simp
  next
    case 3
    then show ?thesis using sig [of "bsize b + 2"] v(2) size by simp
  next
    case 4
    then show ?thesis using sig [of "bsize b"] v(3) size by simp
  qed
  then show ?thesis using v(4) by simp
qed

lemma check_result_cases:
  "check_result s = Ok s' \<Longrightarrow>
     s' = s \<or> s' = s\<lparr>gameOver := True, win_color := 1\<rparr>
     \<or> s' = s\<lparr>gameOver := True, win_color := 2\<rparr> \<or> s' = s\<lparr>win_color := 3, gameOver := True\<rparr>"
  by (auto simp: check_result_def split: sum.splits bool.splits if_splits)

lemma check_result_Raise: "check_result s = Raise e s' \<Longrightarrow> s' = s"
  by (auto simp: check_result_def split: sum.splits bool.splits if_splits)

lemma check_result_total:
  assumes "1 \<le> bsize (brd s)"
    "nat ((bsize (brd s) + 1) * (bsize (brd s) + 1) - 1) \<le> length (board (brd s))"
  shows "\<exists>s'. check_result s = Ok s'"
proof -
  obtain cl where "color_list (brd s) = Inr cl"
    using color_list_total [OF assms(2)] by blast
  moreover obtain r1 where "check_color (brd s) cl 1 = Inr r1"
    using check_color_total [OF assms(1)] by blast
  moreover obtain r2 where "check_color (brd s) cl 2 = Inr r2"
    using check_color_total [OF assms(1)] by blast
  ultimately show ?thesis
    by (simp add: check_result_def split: bool.splits)
qed

text \<open>
  C10. A colour with no stone on the board has the all-false mask: its pass of
  \<open>check_result\<close> raises nothing and signals no win, and \<open>check_result\<close> does
  not make it the winner.
\<close>

theorem absent_color_never_wins:
  assumes "color \<in> {BLACK, WHITE}" "color \<notin> set (board (brd s))"
  shows "check_color (brd s) cl color = Inr False
       \<and> (\<forall>s'. check_result s = Ok s' \<longrightarrow> win_color s' = color \<longrightarrow> s' = s)"
proof -
  have absent: "check_color (brd s) cl' color = Inr False" for cl'
    using assms(2) by (rule check_color_absent_aux)
  have "s' = s" if "check_result s = Ok s'" "win_color s' = color" for s'
    using that assms(1) absent
    by (auto simp: check_result_def BLACK_def WHITE_def split: sum.splits bool.splits if_splits)
  then show ?thesis using absent by blast
qed

theorem absent_color_never_wins_witness:
  "BLACK \<in> {BLACK, WHITE} \<and> BLACK \<notin> set (board (brd (new_connection (board_reset 7) False)))
   \<and> check_color (board_reset 7) [] BLACK = Inr False
   \<and> check_result (new_connection (board_reset 7) False) = Ok (new_connection (board_reset 7) False)"
proof -
  have a: "BLACK \<in> {BLACK, WHITE}" by simp
  have b: "BLACK \<notin> set (board (brd (new_connection (board_reset 7) False)))" by code_simp
  have c: "check_result (new_connection (board_reset 7) False) = Ok (new_connection (board_reset 7) False)"
    by code_simp
  have "check_color (brd (new_connection (board_reset 7) False)) [] BLACK = Inr False"
    using absent_color_never_wins [OF a b] by blast
  then show ?thesis using a b c by (simp add: new_connection_def)
qed

text \<open>
  BLACK is checked first. When BLACK has five in a row along one of the four
  strides and some cell after the start of that line is not BLACK,
  \<open>check_result\<close> ends the game with BLACK as the winner, whatever the WHITE
  stones are: the pass for WHITE is not reached.
\<close>

lemma check_result_reports_first_color:
  assumes "1 \<le> bsize (brd s)"
    and "nat ((bsize (brd s) + 1) * (bsize (brd s) + 1) - 1) \<le> length (board (brd s))"
    and "step \<in> {1, nat (bsize (brd s) + 1), nat (bsize (brd s) + 2), nat (bsize (brd s))}"
    and "five_along (map (\<lambda>c. c = BLACK) (board (brd s))) step p"
    and "p < q" "q < length (board (brd s))" "board (brd s) ! q \<noteq> BLACK"
  shows "check_result s = Ok (s\<lparr>gameOver := True, win_color := 1\<rparr>)"
proof -
  obtain cl where cl: "color_list (brd s) = Inr cl"
    using color_list_total [OF assms(2)] by blast
  have "check_color (brd s) cl 1 = Inr True"
    using check_color_signals [OF assms(1) assms(3), of BLACK p q cl] assms(4-7)
    by (simp add: BLACK_def)
  then show ?thesis using cl by (simp add: check_result_def)
qed

lemma check_result_reports_first_color_example:
  "has_five_in_a_row black_bottom_board BLACK \<and> has_five_in_a_row black_bottom_board WHITE
   \<and> check_result (new_connection black_bottom_board False)
       = Ok ((new_connection black_bottom_board False)\<lparr>gameOver := True, win_color := 1\<rparr>)"
proof -
  define s where "s = new_connection black_bottom_board False"
  have 1: "1 \<le> bsize (brd s)" unfolding s_def by code_simp
  have 2: "nat ((bsize (brd s) + 1) * (bsize (brd s) + 1) - 1) \<le> length (board (brd s))"
    unfolding s_def by code_simp
  have 3: "1 \<in> {1, nat (bsize (brd s) + 1), nat (bsize (brd s) + 2), nat (bsize (brd s))}"
    by simp
  have 4: "five_along (map (\<lambda>c. c = BLACK) (board (brd s))) 1 7"
    unfolding s_def by code_simp
  have 5: "(7::nat) < 12" "12 < length (board (brd s))" "board (brd s) ! 12 \<noteq> BLACK"
    unfolding s_def by code_simp+
  have both: "has_five_in_a_row black_bottom_board BLACK" "has_five_in_a_row black_bottom_board WHITE"
    by code_simp+
  show ?thesis
    using check_result_reports_first_color [OF 1 2 3 4 5] both unfolding s_def by simp
qed

lemma black_top_board_reached:
  "start_connection sample_env top_row_lines (new_connection (board_reset 5) False)
   = Ok ((new_connection black_top_board False)\<lparr>out := concat (replicate 10 (''= '' @ [newline, newline]))\<rparr>)"
  by code_simp

text \<open>
  C4 at its failing input. On the board of size 5 with BLACK on the top row
  (a5 .. e5, the last cells of the array) and WHITE on the bottom row, both
  colours have five in a row. Every loop of the detector sets its check only on
  meeting a false cell after the counter reached 5; BLACK's row runs to the end
  of the mask, so the row loop ends with the counter at 5 and the check unset,
  and \<open>check_result\<close> goes on to WHITE and records WHITE as the winner instead
  of BLACK, the colour checked first.
\<close>

theorem check_result_reports_second_color:
  "has_five_in_a_row black_top_board BLACK \<and> has_five_in_a_row black_top_board WHITE
   \<and> row_scan (connected_component black_top_board BLACK 31) 0 = False
   \<and> check_result (new_connection black_top_board False)
       = Ok ((new_connection black_top_board False)\<lparr>gameOver := True, win_color := 2\<rparr>)"
  by code_simp

section \<open>Properties: genmove\<close>

lemma check_result_brd: "brd (session_of (check_result s)) = brd s"
  by (auto simp: check_result_def session_of_def split: sum.splits bool.splits if_splits)

lemma session_of_simps [simp]:
  "session_of (Ok s) = s" "session_of (Raise e s) = s"
  by (simp_all add: session_of_def)

lemma brd_respond [simp]: "brd (respond r s) = brd s"
  by (simp add: respond_def)

lemma genmove_cmd_brd: "brd (session_of (genmove_cmd ev args s)) = brd s"
proof (cases "arg args 0")
  case (Inl e)
  then show ?thesis by (simp add: genmove_cmd_def)
next
  case a0: (Inr a0)
  show ?thesis
  proof (cases "color_to_int (lower a0)")
    case (Inl e)
    then show ?thesis using a0 by (simp add: genmove_cmd_def)
  next
    case color: (Inr color)
    show ?thesis
    proof (cases "check_result s")
      case (Raise e s1)
      then have "brd s1 = brd s" using check_result_brd [of s] by simp
      then show ?thesis using a0 color Raise by (simp add: genmove_cmd_def)
    next
      case (Ok s1)
      then have same: "brd s1 = brd s" using check_result_brd [of s] by simp
      show ?thesis
      proof (cases "gameOver s1")
        case True
        then show ?thesis using a0 color Ok same by (simp add: genmove_cmd_def Let_def)
      next
        case False
        then show ?thesis
          using a0 color Ok same
          by (simp add: genmove_cmd_def Let_def split: list.split sum.split)
      qed
    qed
  qed
qed

lemma check_result_keeps_over:
  "check_result s = Ok s1 \<Longrightarrow> gameOver s \<Longrightarrow> gameOver s1"
  using check_result_cases [of s s1] by auto

lemma reachable_start_connection:
  "reachable ev s \<Longrightarrow> start_connection ev lines s = Ok s' \<Longrightarrow> reachable ev s'"
proof (induction lines arbitrary: s)
  case Nil
  then show ?case by simp
next
  case (Cons line lines)
  show ?case
  proof (cases "line = []")
    case True
    then show ?thesis using Cons.prems by simp
  next
    case False
    then obtain s1 where s1: "get_cmd ev line s = Ok s1" "start_connection ev lines s1 = Ok s'"
      using Cons.prems(2) by (auto split: result.splits)
    have "reachable ev s1" using Cons.prems(1) s1(1) by (rule reachable.step)
    then show ?thesis using s1(2) by (rule Cons.IH)
  qed
qed

lemma white_recorded_run:
  "start_connection sample_env white_then_black_lines (new_connection (board_reset 5) False)
   = Ok white_recorded"
  by code_simp

lemma white_recorded_reachable: "reachable sample_env white_recorded"
  using reachable_start_connection [OF reachable.start white_recorded_run] .

text \<open>
  C7, as the code has it. For a colour token that \<open>color_to_int\<close> knows, on a
  board of size at least 1 whose array covers the scanned range, \<open>genmove\<close>
  first runs \<open>check_result\<close>, which returns, leaves the board as it is, keeps
  a game that is over over, and may set or overwrite the recorded winner. If the
  game is over after that, the answer is \<open>resign\<close> when the winner then recorded
  is neither the requesting colour nor a draw, \<open>pass\<close> when it is a draw, and
  the empty success otherwise. In every case the board, and with it the current
  player, is what it was.
\<close>

theorem genmove_after_recheck:
  assumes "color_to_int (lower a0) = Inr color"
    and "1 \<le> bsize (brd s)"
    and "nat ((bsize (brd s) + 1) * (bsize (brd s) + 1) - 1) \<le> length (board (brd s))"
  shows "\<exists>s1. check_result s = Ok s1 \<and> brd s1 = brd s \<and> (gameOver s \<longrightarrow> gameOver s1)
      \<and> (gameOver s1 \<longrightarrow>
           genmove_cmd ev [a0] s =
             Ok (respond (if win_color s1 \<noteq> -1 \<and> win_color s1 \<noteq> color \<and> win_color s1 \<noteq> 3
                          then ''resign''
                          else if win_color s1 = 3 then ''pass'' else []) s1))
      \<and> brd (session_of (genmove_cmd ev [a0] s)) = brd s"
proof -
  obtain s1 where s1: "check_result s = Ok s1"
    using check_result_total [OF assms(2,3)] by blast
  have "brd s1 = brd s"
    using check_result_brd [of s] s1 by simp
  moreover have "gameOver s \<longrightarrow> gameOver s1"
    using check_result_keeps_over [OF s1] by blast
  moreover have "genmove_cmd ev [a0] s =
             Ok (respond (if win_color s1 \<noteq> -1 \<and> win_color s1 \<noteq> color \<and> win_color s1 \<noteq> 3
                          then ''resign''
                          else if win_color s1 = 3 then ''pass'' else []) s1)"
    if "gameOver s1"
    using that s1 assms(1) by (simp add: genmove_cmd_def arg_def Let_def)
  ultimately show ?thesis using s1 genmove_cmd_brd by blast
qed

theorem genmove_after_recheck_witness:
  "color_to_int (lower ''w'') = Inr WHITE \<and> gameOver black_won \<and> win_color black_won = BLACK
   \<and> genmove_cmd sample_env [''w''] black_won = Ok (respond ''resign'' black_won)
   \<and> brd (session_of (genmove_cmd sample_env [''w''] black_won)) = brd black_won"
proof -
  have 1: "color_to_int (lower ''w'') = Inr WHITE" by code_simp
  have 2: "1 \<le> bsize (brd black_won)" by code_simp
  have 3: "nat ((bsize (brd black_won) + 1) * (bsize (brd black_won) + 1) - 1)
             \<le> length (board (brd black_won))" by code_simp
  have 4: "check_result black_won = Ok black_won" by code_simp
  have 5: "gameOver black_won" "win_color black_won = BLACK" "win_color black_won = 1"
    by (simp_all add: black_won_def BLACK_def)
  obtain s1 where s1: "check_result black_won = Ok s1"
    "gameOver s1 \<longrightarrow>
       genmove_cmd sample_env [''w''] black_won =
         Ok (respond (if win_color s1 \<noteq> -1 \<and> win_color s1 \<noteq> WHITE \<and> win_color s1 \<noteq> 3
                      then ''resign''
                      else if win_color s1 = 3 then ''pass'' else []) s1)"
    "brd (session_of (genmove_cmd sample_env [''w''] black_won)) = brd black_won"
    using genmove_after_recheck [OF 1 2 3, of sample_env] by blast
  have "s1 = black_won" using s1(1) 4 by simp
  then show ?thesis using s1(2,3) 1 5 by (simp add: WHITE_def)
qed

text \<open>
  C7, as stated, fails on the recorded winner: after WHITE's win has been
  recorded and BLACK has completed a row of its own, \<open>genmove w\<close> re-runs the
  detector, which now records BLACK, and answers \<open>resign\<close> to the colour that
  was the recorded winner when the request was made.
\<close>

theorem genmove_recorded_winner_overwritten:
  "gameOver white_recorded \<and> win_color white_recorded = WHITE
   \<and> get_cmd sample_env ''genmove w'' white_recorded
       = Ok (white_recorded\<lparr>win_color := BLACK, out := out white_recorded @ ''= resign'' @ [newline, newline]\<rparr>)"
  by code_simp

section \<open>Properties: the dispatcher\<close>

text \<open>
  C8, as the code has it. When the handler of a known command, called with the
  right number of arguments, raises an exception (other than the \<open>SystemExit\<close>
  of \<open>quit\<close>), \<open>get_cmd\<close> raises the same exception again; the message and
  the trace are written to the debug stream when debug mode is on, and nothing is
  written when it is off.
\<close>

theorem handler_failure_propagates:
  assumes "parse_command line = Some (name, args)"
    and "has_arg_error name (length args) s = None"
    and "commands ev name = Some h"
    and "h args s = Raise e s'"
    and "e \<noteq> SystemExit"
  shows "get_cmd ev line s =
     Raise e (if debug_mode s'
              then s'\<lparr>err := err s' @ ''Error executing command '' @ str_exn e @ [newline]
                                     @ ''Stack Trace:'' @ [newline] @ format_exc ev e @ [newline]\<rparr>
              else s')"
  using assms by (simp add: get_cmd_def run_handler_def debug_msg_def)

theorem handler_failure_propagates_witness:
  "get_cmd sample_env ''boardsize abc'' (new_connection (board_reset 9) True) =
     Raise (ValueError (''invalid literal for int() with base 10: '' @ [CHR 0x27] @ ''abc'' @ [CHR 0x27]))
       ((new_connection (board_reset 9) True)
          \<lparr>err := ''Error executing command invalid literal for int() with base 10: ''
                   @ [CHR 0x27] @ ''abc'' @ [CHR 0x27] @ [newline]
                   @ ''Stack Trace:'' @ [newline] @ [newline]\<rparr>)"
proof -
  define s where "s = new_connection (board_reset 9) True"
  define e where "e = ValueError (''invalid literal for int() with base 10: '' @ [CHR 0x27] @ ''abc'' @ [CHR 0x27])"
  have 1: "parse_command ''boardsize abc'' = Some (''boardsize'', [''abc''])" by code_simp
  have 2: "has_arg_error ''boardsize'' (length [''abc'']) s = None"
    by (simp add: has_arg_error_def argmap_def)
  have 3: "commands sample_env ''boardsize'' = Some boardsize_cmd" by (simp add: commands_def)
  have i: "py_int ''abc'' = Inl e" unfolding e_def by code_simp
  have 4: "boardsize_cmd [''abc''] s = Raise e s"
    by (simp add: boardsize_cmd_def arg_def i)
  have 5: "e \<noteq> SystemExit" by (simp add: e_def)
  have 6: "debug_mode s" "err s = []" by (simp_all add: s_def new_connection_def)
  have 7: "str_exn e = ''invalid literal for int() with base 10: '' @ [CHR 0x27] @ ''abc'' @ [CHR 0x27]"
    by (simp add: e_def str_exn_def)
  have 8: "format_exc sample_env e = []" by (simp add: sample_env_def)
  show ?thesis
    using handler_failure_propagates [OF 1 2 3 4 5]
    unfolding s_def [symmetric] e_def [symmetric] by (simp add: 6 7 8)
qed

text \<open>
  C8, as stated, fails on the logging: with debug mode off the exception of
  \<open>boardsize abc\<close> is raised again and nothing has been logged.
\<close>

theorem handler_failure_not_logged:
  "get_cmd sample_env ''boardsize abc'' (new_connection (board_reset 9) False) =
     Raise (ValueError (''invalid literal for int() with base 10: '' @ [CHR 0x27] @ ''abc'' @ [CHR 0x27]))
       (new_connection (board_reset 9) False)
   \<and> err (new_connection (board_reset 9) False) = []"
  by code_simp

section \<open>Properties: the verdict fields\<close>

lemma verdict_step_refl [simp]: "verdict_step s s"
  by (simp add: verdict_step_def)

lemma verdict_step_respond [simp]:
  "verdict_step s (respond r s') = verdict_step s s'"
  "verdict_step s (error r s') = verdict_step s s'"
  "verdict_step s (debug_msg r s') = verdict_step s s'"
  by (simp_all add: verdict_step_def respond_def error_def debug_msg_def)

lemma check_result_verdict: "check_result s = Ok s' \<Longrightarrow> verdict_step s s'"
  using check_result_cases [of s s'] by (auto simp: verdict_step_def)

lemma play_cmd_verdict: "play_cmd args s = Ok s' \<Longrightarrow> verdict_step s s'"
  by (auto simp: play_cmd_def play_body_def play_move_def verdict_step_def respond_def Let_def
           split: sum.splits if_splits move.splits)

lemma genmove_cmd_verdict: "genmove_cmd ev args s = Ok s' \<Longrightarrow> verdict_step s s'"
  by (auto simp: genmove_cmd_def Let_def dest: check_result_verdict
           split: sum.splits result.splits list.splits if_splits)

lemma final_result_verdict: "gogui_rules_final_result_cmd args s = Ok s' \<Longrightarrow> verdict_step s s'"
  by (auto simp: gogui_rules_final_result_cmd_def verdict_step_def respond_def
           split: sum.splits bool.splits if_splits)

lemma legal_moves_verdict: "gogui_rules_legal_moves_cmd args s = Ok s' \<Longrightarrow> verdict_step s s'"
  by (auto simp: gogui_rules_legal_moves_cmd_def dest: check_result_verdict
           split: sum.splits result.splits if_splits)

lemma other_cmds_verdict:
  "protocol_version_cmd args s = Ok s' \<Longrightarrow> verdict_step s s'"
  "quit_cmd args s = Ok s' \<Longrightarrow> verdict_step s s'"
  "name_cmd ev args s = Ok s' \<Longrightarrow> verdict_step s s'"
  "version_cmd ev args s = Ok s' \<Longrightarrow> verdict_step s s'"
  "showboard_cmd ev args s = Ok s' \<Longrightarrow> verdict_step s s'"
  "komi_cmd ev args s = Ok s' \<Longrightarrow> verdict_step s s'"
  "known_command_cmd args s = Ok s' \<Longrightarrow> verdict_step s s'"
  "list_commands_cmd args s = Ok s' \<Longrightarrow> verdict_step s s'"
  "legal_moves_cmd ev args s = Ok s' \<Longrightarrow> verdict_step s s'"
  "gogui_rules_game_id_cmd args s = Ok s' \<Longrightarrow> verdict_step s s'"
  "gogui_rules_board_size_cmd args s = Ok s' \<Longrightarrow> verdict_step s s'"
  "gogui_rules_side_to_move_cmd args s = Ok s' \<Longrightarrow> verdict_step s s'"
  "gogui_rules_board_cmd args s = Ok s' \<Longrightarrow> verdict_step s s'"
  "gogui_analyze_cmd args s = Ok s' \<Longrightarrow> verdict_step s s'"
  by (auto simp: protocol_version_cmd_def quit_cmd_def name_cmd_def version_cmd_def
        showboard_cmd_def komi_cmd_def known_command_cmd_def list_commands_cmd_def
        legal_moves_cmd_def gogui_rules_game_id_cmd_def gogui_rules_board_size_cmd_def
        gogui_rules_side_to_move_cmd_def gogui_rules_board_cmd_def gogui_analyze_cmd_def
      split: sum.splits if_splits)

lemma reset_cmds_clear:
  "boardsize_cmd args s = Ok s' \<Longrightarrow> \<not> gameOver s' \<and> win_color s' = -1"
  "clear_board_cmd args s = Ok s' \<Longrightarrow> \<not> gameOver s' \<and> win_color s' = -1"
  by (auto simp: boardsize_cmd_def clear_board_cmd_def reset_def respond_def split: sum.splits)

lemma commands_verdict:
  assumes "commands ev name = Some h" "name \<noteq> ''boardsize''" "name \<noteq> ''clear_board''"
    and "h args s = Ok s'"
  shows "verdict_step s s'"
  using assms
  by (auto simp: commands_def split: if_splits
      intro: play_cmd_verdict genmove_cmd_verdict final_result_verdict legal_moves_verdict
        other_cmds_verdict)

lemma commands_reset:
  assumes "commands ev name = Some h" "name = ''boardsize'' \<or> name = ''clear_board''"
    and "h args s = Ok s'"
  shows "\<not> gameOver s' \<and> win_color s' = -1"
  using assms by (auto simp: commands_def split: if_splits dest: reset_cmds_clear)

lemma run_handler_Ok: "run_handler ev h args s = Ok s' \<longleftrightarrow> h args s = Ok s'"
  by (auto simp: run_handler_def split: result.splits if_splits)

lemma has_arg_error_same:
  "has_arg_error name n s = Some s' \<Longrightarrow> gameOver s' = gameOver s \<and> win_color s' = win_color s"
  by (auto simp: has_arg_error_def error_def split: option.splits if_splits)

lemma get_cmd_verdict:
  assumes "get_cmd ev line s = Ok s'"
  shows "(\<not> is_reset_line line \<longrightarrow> verdict_step s s')
       \<and> (is_reset_line line \<longrightarrow> (gameOver s' = gameOver s \<and> win_color s' = win_color s)
              \<or> (\<not> gameOver s' \<and> win_color s' = -1))"
proof (cases "parse_command line")
  case None
  then show ?thesis using assms by (simp add: get_cmd_def is_reset_line_def)
next
  case (Some na)
  obtain name args where na: "na = (name, args)" by (cases na)
  note parsed = Some [unfolded na]
  show ?thesis
  proof (cases "has_arg_error name (length args) s")
    case (Some s1)
    then have "s1 = s'" using assms parsed by (simp add: get_cmd_def)
    then have "gameOver s' = gameOver s \<and> win_color s' = win_color s"
      using has_arg_error_same [OF Some] by simp
    then show ?thesis by (simp add: verdict_step_def)
  next
    case None
    show ?thesis
    proof (cases "commands ev name")
      case unknown: None
      then have "s' = error ''Unknown command''
                      (debug_msg (''Unknown command: '' @ name @ [newline]) s)"
        using assms parsed None by (auto simp: get_cmd_def)
      then have "gameOver s' = gameOver s \<and> win_color s' = win_color s"
        by (simp add: error_def debug_msg_def)
      then show ?thesis by (simp add: verdict_step_def)
    next
      case (Some h)
      then have h: "h args s = Ok s'"
        using assms parsed None by (simp add: get_cmd_def run_handler_Ok)
      show ?thesis
      proof (cases "name = ''boardsize'' \<or> name = ''clear_board''")
        case True
        then have "is_reset_line line"
          using parsed by (simp add: is_reset_line_def)
        then show ?thesis using commands_reset [OF Some True h] by simp
      next
        case False
        then have "\<not> is_reset_line line"
          using parsed by (simp add: is_reset_line_def)
        moreover have "verdict_step s s'"
          using commands_verdict [OF Some _ _ h] False by simp
        ultimately show ?thesis by simp
      qed
    qed
  qed
qed

lemma reachable_verdict_ok: "reachable ev s \<Longrightarrow> gameOver s \<longrightarrow> win_color s \<in> {1, 2, 3}"
proof (induction rule: reachable.induct)
  case (start b dbg)
  then show ?case by (simp add: new_connection_def)
next
  case (step s line s')
  then show ?case using get_cmd_verdict [OF step(2)] by (auto simp: verdict_step_def)
qed

text \<open>
  C9, as the code has it. In every reachable session, a game that is over has
  winner 1, 2 or 3 (BLACK, WHITE, draw); a command other than \<open>boardsize\<close> and
  \<open>clear_board\<close> keeps the game over and the winner within these three values
  (it may replace one by another); \<open>boardsize\<close> and \<open>clear_board\<close> leave the
  two fields as they are (on a wrong number of arguments) or clear them; and
  \<open>reset\<close> clears both.
\<close>

theorem verdict_fields_invariant:
  assumes "reachable ev s"
  shows "(gameOver s \<longrightarrow> win_color s \<in> {1, 2, 3})
       \<and> (\<forall>line s'. get_cmd ev line s = Ok s' \<longrightarrow> gameOver s \<longrightarrow> \<not> is_reset_line line \<longrightarrow>
              gameOver s' \<and> win_color s' \<in> {1, 2, 3})
       \<and> (\<forall>line s'. get_cmd ev line s = Ok s' \<longrightarrow> is_reset_line line \<longrightarrow>
              (gameOver s' = gameOver s \<and> win_color s' = win_color s)
              \<or> (\<not> gameOver s' \<and> win_color s' = -1))
       \<and> (\<forall>n. \<not> gameOver (reset n s) \<and> win_color (reset n s) = -1)"
proof -
  have ok: "gameOver s \<longrightarrow> win_color s \<in> {1, 2, 3}"
    using reachable_verdict_ok [OF assms] .
  have a: "gameOver s' \<and> win_color s' \<in> {1, 2, 3}"
    if "get_cmd ev line s = Ok s'" "gameOver s" "\<not> is_reset_line line" for line s'
    using get_cmd_verdict [OF that(1)] that(2,3) ok by (auto simp: verdict_step_def)
  have b: "(gameOver s' = gameOver s \<and> win_color s' = win_color s)
              \<or> (\<not> gameOver s' \<and> win_color s' = -1)"
    if "get_cmd ev line s = Ok s'" "is_reset_line line" for line s'
    using get_cmd_verdict [OF that(1)] that(2) by blast
  have c: "\<not> gameOver (reset n s) \<and> win_color (reset n s) = -1" for n
    by (simp add: reset_def)
  show ?thesis
  proof (intro conjI allI impI)
    show "win_color s \<in> {1, 2, 3}" if "gameOver s" using ok that by simp
  next
    fix line s'
    assume "get_cmd ev line s = Ok s'" "gameOver s" "\<not> is_reset_line line"
    then show "gameOver s'" "win_color s' \<in> {1, 2, 3}" using a by blast+
  next
    fix line s'
    assume "get_cmd ev line s = Ok s'" "is_reset_line line"
    then show "(gameOver s' = gameOver s \<and> win_color s' = win_color s)
              \<or> (\<not> gameOver s' \<and> win_color s' = -1)" by (rule b)
  next
    fix n show "\<not> gameOver (reset n s)" "win_color (reset n s) = -1" using c by simp_all
  qed
qed

theorem verdict_fields_invariant_witness:
  "reachable sample_env white_recorded \<and> gameOver white_recorded
   \<and> win_color white_recorded \<in> {1, 2, 3}
   \<and> \<not> gameOver (reset 9 white_recorded) \<and> win_color (reset 9 white_recorded) = -1"
  using verdict_fields_invariant [OF white_recorded_reachable] white_recorded_reachable
  by (simp add: white_recorded_def)

text \<open>
  C9, as stated, fails on the winner: with WHITE recorded as the winner and no
  reset, the result command alone replaces the winner by BLACK once BLACK has
  a row of its own.
\<close>

theorem winner_changes_without_reset:
  "gameOver white_recorded \<and> win_color white_recorded = WHITE
   \<and> \<not> is_reset_line ''gogui-rules_final_result''
   \<and> get_cmd sample_env ''gogui-rules_final_result'' white_recorded
       = Ok (white_recorded\<lparr>win_color := BLACK, out := out white_recorded @ ''= black'' @ [newline, newline]\<rparr>)"
  by code_simp

end
